theory Spec2Isabelle
  imports
    Main
    "HOL-Library.Product_Lexorder"
    "HOL-Library.Char_ord"
    "HOL-Library.List_Lexorder"
    "HOL-Library.AList"
begin

section \<open>Data model of signal\_dash\_data\_generator.py\<close>

text \<open>
  A calendar date is (year, month, day) and a timestamp is a date with the nanoseconds
  elapsed in that day; both are ordered lexicographically, which is the chronological
  order. \<open>pdate\<close> is what pandas' \<^verbatim>\<open>.date()\<close> hands back: a calendar date, or the
  not-a-time value \<open>NaT\<close>.
\<close>

type_synonym date = "nat \<times> nat \<times> nat"

type_synonym timestamp = "date \<times> nat"

datatype pdate = NaT | Date date

text \<open>
  The exceptions of a run. \<open>ValueError_rows n\<close> is the
  \<^verbatim>\<open>ValueError("Expected one row for coverage, got n.")\<close> of \<^verbatim>\<open>get_coverage\<close>;
  \<open>ValueError_format\<close> is what the date parser raises on a string it cannot parse;
  \<open>IndexError\<close> is pandas' out-of-bounds \<^verbatim>\<open>.iloc[0]\<close>; \<open>Connector_Error\<close> is
  \<^verbatim>\<open>mysql.connector.Error\<close>. \<open>NaT_day\<close> marks a branch of the model that the code
  never reaches (see \<open>get_coverage\<close>).
\<close>

datatype error = ValueError_rows nat | ValueError_format | IndexError | Connector_Error | NaT_day

record DashboardSignal =
  db_id :: int
  name :: string
  source :: string
  latest_coverage_update :: date
  latest_status_update :: date

record DashboardSignalCoverage =
  cov_signal_id :: int
  cov_date :: date
  cov_geo_type :: string
  cov_count :: int

record DashboardSignalStatus =
  st_signal_id :: int
  st_date :: date
  st_latest_issue :: pdate
  st_latest_time_value :: pdate

text \<open>
  One row of the table returned by \<^verbatim>\<open>covidcast.metadata()\<close>, with the columns the
  script reads: \<^verbatim>\<open>max_issue\<close> is an integer written YYYYMMDD, \<^verbatim>\<open>max_time\<close> a timestamp.
\<close>

record meta_row =
  data_source :: string
  signal :: string
  max_issue :: int
  max_time :: timestamp

text \<open>
  One row of the frame returned by \<^verbatim>\<open>covidcast.signal(...)\<close>: the four columns the
  script groups by, and the geographic unit the row reports.
\<close>

record ts_row =
  geo_type :: string
  row_data_source :: string
  time_value :: date
  row_signal :: string
  geo_value :: string

text \<open>The arguments of one call \<^verbatim>\<open>covidcast.signal(source, signal, end_day, start_day)\<close>.\<close>

record query =
  q_data_source :: string
  q_signal :: string
  q_end_day :: date
  q_start_day :: date

section \<open>Coverage calculator\<close>

text \<open>
  \<^verbatim>\<open>Series.max()\<close>: the greatest entry of a column, and NaN (NaT for a column of
  timestamps) for a column with no rows, here \<open>None\<close>.
\<close>

definition series_max :: "'a::linorder list \<Rightarrow> 'a option" where
  "series_max xs = (case xs of [] \<Rightarrow> None | x # rest \<Rightarrow> Some (fold max rest x))"

definition is_leap :: "nat \<Rightarrow> bool" where
  "is_leap y = (y mod 4 = 0 \<and> (y mod 100 \<noteq> 0 \<or> y mod 400 = 0))"

definition days_in_month :: "nat \<Rightarrow> nat \<Rightarrow> nat" where
  "days_in_month y m =
     (if m = 2 then (if is_leap y then 29 else 28)
      else if m = 4 \<or> m = 6 \<or> m = 9 \<or> m = 11 then 30
      else 31)"

text \<open>
  The integers whose decimal string is the eight digits YYYYMMDD of a calendar date
  that every pandas timestamp can hold (years 1678 to 2261), and the date they name.
\<close>

definition yyyymmdd_fields :: "int \<Rightarrow> date" where
  "yyyymmdd_fields n = (nat (n div 10000), nat ((n div 100) mod 100), nat (n mod 100))"

definition is_yyyymmdd :: "int \<Rightarrow> bool" where
  "is_yyyymmdd n =
     (case yyyymmdd_fields n of (y, m, d) \<Rightarrow>
        0 \<le> n \<and> 1678 \<le> y \<and> y \<le> 2261 \<and> 1 \<le> m \<and> m \<le> 12 \<and> 1 \<le> d \<and> d \<le> days_in_month y m)"

text \<open>
  \<^verbatim>\<open>pd.to_datetime(str(max_issue), format="%Y%m%d").date()\<close>. On NaN the string is
  \<^verbatim>\<open>"nan"\<close>, which the parser reads as NaT, and \<^verbatim>\<open>NaT.date()\<close> is NaT: nothing is
  raised. On an integer written YYYYMMDD the result is the date it names. What the
  parser does with any other integer (a string of another length, a month 13, a year
  outside the timestamp range) belongs to the library and is the parameter \<open>rest\<close>.
\<close>

definition to_datetime_date :: "(int \<Rightarrow> error + pdate) \<Rightarrow> int option \<Rightarrow> error + pdate" where
  "to_datetime_date rest max_issue_opt =
     (case max_issue_opt of
        None \<Rightarrow> Inr NaT
      | Some n \<Rightarrow> if is_yyyymmdd n then Inr (Date (yyyymmdd_fields n)) else rest n)"

definition get_latest_issue_from_metadata ::
  "(int \<Rightarrow> error + pdate) \<Rightarrow> DashboardSignal \<Rightarrow> meta_row list \<Rightarrow> error + pdate" where
  "get_latest_issue_from_metadata rest dashboard_signal metadata =
     (let df_for_source = filter (\<lambda>r. data_source r = source dashboard_signal) metadata;
          max_issue_opt = series_max (map max_issue df_for_source)
      in to_datetime_date rest max_issue_opt)"

definition get_latest_time_value_from_metadata ::
  "DashboardSignal \<Rightarrow> meta_row list \<Rightarrow> error + pdate" where
  "get_latest_time_value_from_metadata dashboard_signal metadata =
     (let df_for_source = filter (\<lambda>r. data_source r = source dashboard_signal) metadata
      in case series_max (map max_time df_for_source) of
           None \<Rightarrow> Inr NaT
         | Some t \<Rightarrow> Inr (Date (fst t)))"

text \<open>
  \<^verbatim>\<open>groupby([...]).size().to_frame('count').reset_index()\<close>: one row per distinct
  combination of the four columns, in ascending order of the combination, with the
  number of rows that carry it.
\<close>

definition group_key :: "ts_row \<Rightarrow> string \<times> string \<times> date \<times> string" where
  "group_key r = (geo_type r, row_data_source r, time_value r, row_signal r)"

definition groupby_size :: "ts_row list \<Rightarrow> ((string \<times> string \<times> date \<times> string) \<times> nat) list" where
  "groupby_size df =
     map (\<lambda>k. (k, length (filter (\<lambda>r. group_key r = k) df)))
         (sort (remdups (map group_key df)))"

text \<open>
  \<^verbatim>\<open>get_coverage\<close>. The time-series endpoint \<^verbatim>\<open>covidcast.signal\<close> is an external
  service and a parameter of the model. The first \<^verbatim>\<open>.iloc[0]\<close> raises on a source
  without metadata rows, before anything is queried; past it the column of
  \<^verbatim>\<open>max_time\<close> has a row, so \<open>latest_time_value\<close> is a date and the branch \<open>NaT\<close>
  is never taken (lemma \<open>get_coverage_never_NaT_day\<close>). The second \<^verbatim>\<open>.iloc[0]\<close> raises
  when the grouped frame has no row.
\<close>

definition get_coverage ::
  "(query \<Rightarrow> ts_row list) \<Rightarrow> DashboardSignal \<Rightarrow> meta_row list
     \<Rightarrow> error + DashboardSignalCoverage list" where
  "get_coverage covidcast_signal dashboard_signal metadata =
     (case get_latest_time_value_from_metadata dashboard_signal metadata of
        Inl e \<Rightarrow> Inl e
      | Inr latest_time_value \<Rightarrow>
          (case filter (\<lambda>r. data_source r = source dashboard_signal) metadata of
             [] \<Rightarrow> Inl IndexError
           | first_row # _ \<Rightarrow>
               (case latest_time_value of
                  NaT \<Rightarrow> Inl NaT_day
                | Date day \<Rightarrow>
                    (let latest_data = covidcast_signal
                           \<lparr>q_data_source = source dashboard_signal,
                            q_signal = signal first_row,
                            q_end_day = day,
                            q_start_day = day\<rparr>;
                         count_by_geo_type_df = groupby_size latest_data
                     in if length count_by_geo_type_df > 1
                        then Inl (ValueError_rows (length count_by_geo_type_df))
                        else (case count_by_geo_type_df of
                                [] \<Rightarrow> Inl IndexError
                              | (k, c) # _ \<Rightarrow>
                                  Inr [\<lparr>cov_signal_id = db_id dashboard_signal,
                                        cov_date = day,
                                        cov_geo_type = fst k,
                                        cov_count = int c\<rparr>])))))"

section \<open>Registry store\<close>

text \<open>
  A row of the table \<^verbatim>\<open>dashboard_signal\<close>, with the columns the statements of the
  script name. Both watermark columns hold dates.
\<close>

record signal_row =
  row_id :: int
  row_name :: string
  row_source :: string
  row_latest_coverage_update :: date
  row_latest_status_update :: date
  row_enabled :: bool

text \<open>
  The three tables. A row of \<^verbatim>\<open>dashboard_signal_status\<close> has the four columns of a
  \<open>DashboardSignalStatus\<close> and a row of \<^verbatim>\<open>dashboard_signal_coverage\<close> those of a
  \<open>DashboardSignalCoverage\<close>, in the order the rows were inserted.
\<close>

record tables =
  signal_table :: "signal_row list"
  status_table :: "DashboardSignalStatus list"
  coverage_table :: "DashboardSignalCoverage list"

text \<open>
  The store as the one connection of a run sees it: \<open>session\<close> holds the tables with
  the work of the open transaction, \<open>committed\<close> the tables as of the last
  \<^verbatim>\<open>commit()\<close>.
\<close>

record database =
  session :: tables
  committed :: tables

text \<open>
  Which statement of a write raises \<^verbatim>\<open>mysql.connector.Error\<close>, if it is executed:
  the batched insert, the update statement of index \<open>j\<close> (from 0), or the commit.
\<close>

datatype fault = No_fault | Insert_fails | Update_fails nat | Commit_fails

text \<open>
  Modelled from the spec: the unique key \<^verbatim>\<open>(signal_id, date)\<close> of the status table, whose
  schema is not part of the source. \<^verbatim>\<open>INSERT ... ON DUPLICATE KEY UPDATE\<close> overwrites
  \<^verbatim>\<open>latest_issue\<close> and \<^verbatim>\<open>latest_time_value\<close> of the row holding the key, and adds the
  row when no row holds it.
\<close>

definition status_key :: "DashboardSignalStatus \<Rightarrow> int \<times> date" where
  "status_key x = (st_signal_id x, st_date x)"

fun upsert_status ::
  "DashboardSignalStatus \<Rightarrow> DashboardSignalStatus list \<Rightarrow> DashboardSignalStatus list" where
  "upsert_status x [] = [x]"
| "upsert_status x (r # rs) =
     (if status_key r = status_key x
      then r\<lparr>st_latest_issue := st_latest_issue x,
             st_latest_time_value := st_latest_time_value x\<rparr> # rs
      else r # upsert_status x rs)"

text \<open>
  Modelled from the spec: the unique key \<^verbatim>\<open>(signal_id, date, geo_type)\<close> of the coverage
  table, whose schema is not part of the source. On a duplicate key the statement
  assigns \<^verbatim>\<open>signal_id = signal_id\<close>, which leaves the row as it is.
\<close>

definition coverage_key :: "DashboardSignalCoverage \<Rightarrow> int \<times> date \<times> string" where
  "coverage_key x = (cov_signal_id x, cov_date x, cov_geo_type x)"

fun insert_coverage ::
  "DashboardSignalCoverage \<Rightarrow> DashboardSignalCoverage list \<Rightarrow> DashboardSignalCoverage list" where
  "insert_coverage x [] = [x]"
| "insert_coverage x (r # rs) =
     (if coverage_key r = coverage_key x
      then r\<lparr>cov_signal_id := cov_signal_id r\<rparr> # rs
      else r # insert_coverage x rs)"

text \<open>
  The loop that fills the dictionary \<^verbatim>\<open>latest_status_dates\<close> (and
  \<^verbatim>\<open>latest_coverage_dates\<close>): a Python dictionary keeps its keys in insertion order,
  and a date is always truthy, so \<^verbatim>\<open>not latest_status_date\<close> holds exactly for a
  missing key. The argument lists \<^verbatim>\<open>(x.signal_id, x.date)\<close> for the batch.
\<close>

definition latest_date_step :: "int \<times> date \<Rightarrow> (int \<times> date) list \<Rightarrow> (int \<times> date) list" where
  "latest_date_step x latest_dates =
     (case map_of latest_dates (fst x) of
        None \<Rightarrow> AList.update (fst x) (snd x) latest_dates
      | Some latest_date \<Rightarrow>
          if snd x > latest_date then AList.update (fst x) (snd x) latest_dates
          else latest_dates)"

definition latest_dates :: "(int \<times> date) list \<Rightarrow> (int \<times> date) list" where
  "latest_dates batch = fold latest_date_step batch []"

definition latest_tuples :: "(int \<times> date) list \<Rightarrow> (date \<times> int) list" where
  "latest_tuples batch = map (\<lambda>(k, v). (v, k)) (latest_dates batch)"

text \<open>
  \<^verbatim>\<open>UPDATE dashboard_signal SET latest_status_update =
  GREATEST(latest_status_update, %s) WHERE id = %s\<close>, and the same for
  \<^verbatim>\<open>latest_coverage_update\<close>, with the parameters \<open>(v, k)\<close>.
\<close>

definition update_latest_status :: "date \<times> int \<Rightarrow> signal_row list \<Rightarrow> signal_row list" where
  "update_latest_status p tbl =
     map (\<lambda>r. if row_id r = snd p
               then r\<lparr>row_latest_status_update := max (row_latest_status_update r) (fst p)\<rparr>
               else r) tbl"

definition update_latest_coverage :: "date \<times> int \<Rightarrow> signal_row list \<Rightarrow> signal_row list" where
  "update_latest_coverage p tbl =
     map (\<lambda>r. if row_id r = snd p
               then r\<lparr>row_latest_coverage_update := max (row_latest_coverage_update r) (fst p)\<rparr>
               else r) tbl"

text \<open>
  \<^verbatim>\<open>executemany\<close> runs the update statement once per parameter tuple, so the statement
  of index \<open>j\<close> raises after the \<open>j\<close> statements before it have run; with no more than
  \<open>j\<close> tuples it is never executed. The insert of a batch is one multi-row statement,
  and \<^verbatim>\<open>executemany\<close> executes nothing for an empty batch.
\<close>

definition insert_raises :: "fault \<Rightarrow> 'a list \<Rightarrow> bool" where
  "insert_raises f batch = (f = Insert_fails \<and> batch \<noteq> [])"

definition update_raises :: "fault \<Rightarrow> 'a list \<Rightarrow> bool" where
  "update_raises f tuples = (case f of Update_fails j \<Rightarrow> j < length tuples | _ \<Rightarrow> False)"

definition updates_run :: "fault \<Rightarrow> 'a list \<Rightarrow> 'a list" where
  "updates_run f tuples = (case f of Update_fails j \<Rightarrow> take j tuples | _ \<Rightarrow> tuples)"

text \<open>
  For the statements about the watermarks: the dates that a batch, given as its pairs
  \<^verbatim>\<open>(x.signal_id, x.date)\<close>, holds for the signal \<open>i\<close>.
\<close>

definition dates_of :: "int \<Rightarrow> (int \<times> date) list \<Rightarrow> date set" where
  "dates_of i batch = snd ` {p \<in> set batch. fst p = i}"

definition status_pairs :: "DashboardSignalStatus list \<Rightarrow> (int \<times> date) list" where
  "status_pairs status_list = map (\<lambda>x. (st_signal_id x, st_date x)) status_list"

definition coverage_pairs :: "DashboardSignalCoverage list \<Rightarrow> (int \<times> date) list" where
  "coverage_pairs coverage_list = map (\<lambda>x. (cov_signal_id x, cov_date x)) coverage_list"

definition write_status ::
  "fault \<Rightarrow> database \<Rightarrow> DashboardSignalStatus list \<Rightarrow> (error + unit) \<times> database" where
  "write_status f db status_list =
     (if insert_raises f status_list then (Inl Connector_Error, db)
      else
        let inserted = (session db)
              \<lparr>status_table := fold upsert_status status_list (status_table (session db))\<rparr>;
            latest_status_tuples = latest_tuples (status_pairs status_list);
            updated = inserted
              \<lparr>signal_table := fold update_latest_status
                   (updates_run f latest_status_tuples) (signal_table inserted)\<rparr>
        in if update_raises f latest_status_tuples \<or> f = Commit_fails
           then (Inl Connector_Error, db\<lparr>session := updated\<rparr>)
           else (Inr (), \<lparr>session = updated, committed = updated\<rparr>))"

definition write_coverage ::
  "fault \<Rightarrow> database \<Rightarrow> DashboardSignalCoverage list \<Rightarrow> (error + unit) \<times> database" where
  "write_coverage f db coverage_list =
     (if insert_raises f coverage_list then (Inl Connector_Error, db)
      else
        let inserted = (session db)
              \<lparr>coverage_table := fold insert_coverage coverage_list (coverage_table (session db))\<rparr>;
            latest_coverage_tuples = latest_tuples (coverage_pairs coverage_list);
            updated = inserted
              \<lparr>signal_table := fold update_latest_coverage
                   (updates_run f latest_coverage_tuples) (signal_table inserted)\<rparr>
        in if update_raises f latest_coverage_tuples \<or> f = Commit_fails
           then (Inl Connector_Error, db\<lparr>session := updated\<rparr>)
           else (Inr (), \<lparr>session = updated, committed = updated\<rparr>))"

text \<open>
  For the statement that no write lowers a watermark: the rows of the signal table
  keep their place and their id, and neither watermark of a row goes down.
\<close>

definition watermarks_advance :: "signal_row list \<Rightarrow> signal_row list \<Rightarrow> bool" where
  "watermarks_advance old new =
     list_all2 (\<lambda>r r'. row_id r' = row_id r
                 \<and> row_latest_status_update r \<le> row_latest_status_update r'
                 \<and> row_latest_coverage_update r \<le> row_latest_coverage_update r') old new"

definition get_enabled_signals :: "database \<Rightarrow> DashboardSignal list" where
  "get_enabled_signals db =
     map (\<lambda>result. \<lparr>db_id = row_id result,
                     name = row_name result,
                     source = row_source result,
                     latest_coverage_update = row_latest_coverage_update result,
                     latest_status_update = row_latest_status_update result\<rparr>)
         (filter row_enabled (signal_table (session db)))"

section \<open>Orchestrator\<close>

text \<open>
  What a run takes from outside: the date parser's behaviour off the documented format,
  the two answers of the data API, the day of the run, and the fault of each of the
  two writes.
\<close>

record world =
  to_datetime_rest :: "int \<Rightarrow> error + pdate"
  covidcast_metadata :: "meta_row list"
  covidcast_signal :: "query \<Rightarrow> ts_row list"
  today :: date
  status_fault :: fault
  coverage_fault :: fault

datatype log_event =
  Starting "string list" | Wrote_status | Wrote_coverage | Logged_exception error | Generated

text \<open>
  The body of the loop of \<^verbatim>\<open>main\<close>: the status and the coverage of one signal, or
  the exception that one of the three computations raises. The day of the run,
  \<^verbatim>\<open>datetime.date.today()\<close>, is one date for the whole run.
\<close>

definition compute_signal ::
  "world \<Rightarrow> meta_row list \<Rightarrow> DashboardSignal
     \<Rightarrow> error + (DashboardSignalStatus \<times> DashboardSignalCoverage list)" where
  "compute_signal w metadata dashboard_signal =
     (case get_latest_issue_from_metadata (to_datetime_rest w) dashboard_signal metadata of
        Inl e \<Rightarrow> Inl e
      | Inr latest_issue \<Rightarrow>
          (case get_latest_time_value_from_metadata dashboard_signal metadata of
             Inl e \<Rightarrow> Inl e
           | Inr latest_time_value \<Rightarrow>
               (case get_coverage (covidcast_signal w) dashboard_signal metadata of
                  Inl e \<Rightarrow> Inl e
                | Inr latest_coverage \<Rightarrow>
                    Inr (\<lparr>st_signal_id = db_id dashboard_signal,
                          st_date = today w,
                          st_latest_issue = latest_issue,
                          st_latest_time_value = latest_time_value\<rparr>,
                         latest_coverage))))"

text \<open>
  The loop of \<^verbatim>\<open>main\<close> over the enabled signals, with the two lists it fills: an
  exception of one signal leaves the loop, and the function, at once.
\<close>

fun generate ::
  "world \<Rightarrow> meta_row list \<Rightarrow> DashboardSignal list
     \<Rightarrow> DashboardSignalStatus list \<times> DashboardSignalCoverage list
     \<Rightarrow> error + (DashboardSignalStatus list \<times> DashboardSignalCoverage list)" where
  "generate w metadata [] (signal_status_list, coverage_list) =
     Inr (signal_status_list, coverage_list)"
| "generate w metadata (dashboard_signal # remaining) (signal_status_list, coverage_list) =
     (case compute_signal w metadata dashboard_signal of
        Inl e \<Rightarrow> Inl e
      | Inr (signal_status, latest_coverage) \<Rightarrow>
          generate w metadata remaining
            (signal_status_list @ [signal_status], coverage_list @ latest_coverage))"

text \<open>
  The outcome of \<^verbatim>\<open>main\<close>: the value returned or the exception that left it, the store
  afterwards, and the log.
\<close>

record run =
  returned :: "error + bool"
  store :: database
  logged :: "log_event list"

definition log_of_write :: "log_event \<Rightarrow> error + unit \<Rightarrow> log_event" where
  "log_of_write wrote r = (case r of Inl exception \<Rightarrow> Logged_exception exception | Inr _ \<Rightarrow> wrote)"

definition main :: "world \<Rightarrow> database \<Rightarrow> run" where
  "main w database =
     (let signals_to_generate = get_enabled_signals database;
          log0 = [Starting (map name signals_to_generate)];
          metadata = covidcast_metadata w
      in case generate w metadata signals_to_generate ([], []) of
           Inl e \<Rightarrow> \<lparr>returned = Inl e, store = database, logged = log0\<rparr>
         | Inr (signal_status_list, coverage_list) \<Rightarrow>
             (let (r1, db1) = write_status (status_fault w) database signal_status_list;
                  (r2, db2) = write_coverage (coverage_fault w) db1 coverage_list
              in \<lparr>returned = Inr True,
                  store = db2,
                  logged = log0 @ [log_of_write Wrote_status r1,
                                   log_of_write Wrote_coverage r2,
                                   Generated]\<rparr>))"

text \<open>
  The exit code of the script: \<^verbatim>\<open>sys.exit(1)\<close> when \<^verbatim>\<open>main\<close> returns a false value, 1
  as well when an exception leaves \<^verbatim>\<open>main\<close>, and 0 otherwise.
\<close>

definition exit_code :: "run \<Rightarrow> int" where
  "exit_code r = (case returned r of Inl _ \<Rightarrow> 1 | Inr ok \<Rightarrow> if ok then 0 else 1)"

section \<open>A concrete run\<close>

text \<open>
  One enabled signal of source \<^verbatim>\<open>src\<close>, one metadata row for it, and endpoints that
  answer the query for that source, the signal \<^verbatim>\<open>sig\<close> and the day 2023-01-04 (with
  three county rows, or with two county rows and a state row) and have no row for any
  other query.
\<close>

definition reject_rest :: "int \<Rightarrow> error + pdate" where
  "reject_rest n = Inl ValueError_format"

definition example_signal :: DashboardSignal where
  "example_signal =
     \<lparr>db_id = 1, name = ''sig'', source = ''src'',
      latest_coverage_update = (2020, 1, 1), latest_status_update = (2020, 1, 1)\<rparr>"

definition renamed_signal :: DashboardSignal where
  "renamed_signal =
     \<lparr>db_id = 1, name = ''other name'', source = ''src'',
      latest_coverage_update = (2021, 6, 1), latest_status_update = (2022, 2, 2)\<rparr>"

definition stray_signal :: DashboardSignal where
  "stray_signal =
     \<lparr>db_id = 2, name = ''stray'', source = ''nowhere'',
      latest_coverage_update = (2020, 1, 1), latest_status_update = (2020, 1, 1)\<rparr>"

definition example_meta_row :: meta_row where
  "example_meta_row =
     \<lparr>data_source = ''src'', signal = ''sig'', max_issue = 20230105,
      max_time = ((2023, 1, 4), 0)\<rparr>"

definition example_metadata :: "meta_row list" where
  "example_metadata = [example_meta_row]"

definition example_ts_row :: "string \<Rightarrow> string \<Rightarrow> ts_row" where
  "example_ts_row g v =
     \<lparr>geo_type = g, row_data_source = ''src'', time_value = (2023, 1, 4),
      row_signal = ''sig'', geo_value = v\<rparr>"

definition county_rows :: "ts_row list" where
  "county_rows =
     [example_ts_row ''county'' ''01001'', example_ts_row ''county'' ''01003'',
      example_ts_row ''county'' ''01005'']"

definition mixed_rows :: "ts_row list" where
  "mixed_rows =
     [example_ts_row ''county'' ''01001'', example_ts_row ''county'' ''01003'',
      example_ts_row ''state'' ''al'']"

definition example_query :: query where
  "example_query =
     \<lparr>q_data_source = ''src'', q_signal = ''sig'',
      q_end_day = (2023, 1, 4), q_start_day = (2023, 1, 4)\<rparr>"

definition county_endpoint :: "query \<Rightarrow> ts_row list" where
  "county_endpoint q = (if q = example_query then county_rows else [])"

definition mixed_endpoint :: "query \<Rightarrow> ts_row list" where
  "mixed_endpoint q = (if q = example_query then mixed_rows else [])"

definition empty_endpoint :: "query \<Rightarrow> ts_row list" where
  "empty_endpoint q = []"

definition example_signal_row :: signal_row where
  "example_signal_row =
     \<lparr>row_id = 1, row_name = ''sig'', row_source = ''src'',
      row_latest_coverage_update = (2020, 1, 1), row_latest_status_update = (2020, 1, 1),
      row_enabled = True\<rparr>"

definition stray_signal_row :: signal_row where
  "stray_signal_row =
     \<lparr>row_id = 2, row_name = ''stray'', row_source = ''nowhere'',
      row_latest_coverage_update = (2020, 1, 1), row_latest_status_update = (2020, 1, 1),
      row_enabled = True\<rparr>"

definition example_tables :: tables where
  "example_tables =
     \<lparr>signal_table = [example_signal_row], status_table = [], coverage_table = []\<rparr>"

definition example_db :: database where
  "example_db = \<lparr>session = example_tables, committed = example_tables\<rparr>"

definition two_signal_tables :: tables where
  "two_signal_tables =
     \<lparr>signal_table = [example_signal_row, stray_signal_row, example_signal_row\<lparr>row_id := 3\<rparr>],
      status_table = [], coverage_table = []\<rparr>"

definition two_signal_db :: database where
  "two_signal_db = \<lparr>session = two_signal_tables, committed = two_signal_tables\<rparr>"

definition example_world :: "fault \<Rightarrow> fault \<Rightarrow> world" where
  "example_world f1 f2 =
     \<lparr>to_datetime_rest = reject_rest,
      covidcast_metadata = example_metadata,
      covidcast_signal = county_endpoint,
      today = (2023, 1, 6),
      status_fault = f1,
      coverage_fault = f2\<rparr>"

definition example_status :: DashboardSignalStatus where
  "example_status =
     \<lparr>st_signal_id = 1, st_date = (2023, 1, 6),
      st_latest_issue = Date (2023, 1, 5), st_latest_time_value = Date (2023, 1, 4)\<rparr>"

definition example_coverage :: DashboardSignalCoverage where
  "example_coverage =
     \<lparr>cov_signal_id = 1, cov_date = (2023, 1, 4), cov_geo_type = ''county'', cov_count = 3\<rparr>"

section \<open>Properties of the coverage calculator\<close>

lemma series_max_Cons: "series_max (x # rest) = Some (Max (set (x # rest)))"
  unfolding series_max_def by (simp add: Max.set_eq_fold [symmetric] del: set_simps)

lemma series_max_eq_Max: "xs \<noteq> [] \<Longrightarrow> series_max xs = Some (Max (set xs))"
  by (cases xs) (simp_all add: series_max_Cons del: set_simps)

lemma series_max_None_iff: "series_max xs = None \<longleftrightarrow> xs = []"
  by (cases xs) (simp_all add: series_max_def)

lemma days_in_month_le: "days_in_month y m \<le> 31"
  by (simp add: days_in_month_def)

lemma yyyymmdd_fields_encode:
  assumes "m < 100" and "d < 100"
  shows "yyyymmdd_fields (int y * 10000 + int m * 100 + int d) = (y, m, d)"
proof -
  let ?n = "int y * 10000 + int m * 100 + int d"
  have md: "int m * 100 + int d < 10000" and md0: "0 \<le> int m * 100 + int d"
    using assms by simp_all
  have "?n = (int m * 100 + int d) + int y * 10000" by simp
  then have y: "?n div 10000 = int y"
    using md md0 by (simp add: div_pos_pos_trivial)
  have "?n = int d + (int y * 100 + int m) * 100" by (simp add: algebra_simps)
  then have "?n div 100 = int y * 100 + int m"
    using assms by (simp add: div_pos_pos_trivial)
  then have m: "(?n div 100) mod 100 = int m"
    using assms by (simp add: mod_pos_pos_trivial)
  have "?n mod 100 = (int d + (int y * 100 + int m) * 100) mod 100"
    by (simp add: algebra_simps)
  also have "\<dots> = int d mod 100"
    by (rule mod_mult_self1)
  also have "\<dots> = int d"
    using assms by simp
  finally have d: "?n mod 100 = int d" .
  show ?thesis
    unfolding yyyymmdd_fields_def y m d by simp
qed

lemma to_datetime_date_encode:
  assumes "1678 \<le> y" "y \<le> 2261" "1 \<le> m" "m \<le> 12" "1 \<le> d" "d \<le> days_in_month y m"
  shows "to_datetime_date rest (Some (int y * 10000 + int m * 100 + int d)) = Inr (Date (y, m, d))"
proof -
  have "d \<le> 31" using assms(6) days_in_month_le [of y m] by simp
  then have fields: "yyyymmdd_fields (int y * 10000 + int m * 100 + int d) = (y, m, d)"
    using assms(4) by (intro yyyymmdd_fields_encode) simp_all
  then have "is_yyyymmdd (int y * 10000 + int m * 100 + int d)"
    using assms by (simp add: is_yyyymmdd_def)
  with fields show ?thesis
    by (simp add: to_datetime_date_def)
qed

lemma remdups_all_equal:
  assumes "xs \<noteq> []" and "\<forall>x \<in> set xs. x = k"
  shows "remdups xs = [k]"
proof -
  have s: "set xs = {k}"
    using assms by (cases xs) auto
  then have "length (remdups xs) = 1"
    by (simp add: length_remdups_card_conv)
  then obtain y where y: "remdups xs = [y]"
    by (cases "remdups xs") auto
  have "set (remdups xs) = set xs"
    by simp
  with y s have "y = k"
    by (metis list.set_intros(1) singletonD)
  with y show ?thesis
    by simp
qed

lemma groupby_size_one_group:
  assumes "df \<noteq> []" and "\<forall>r \<in> set df. group_key r = k"
  shows "groupby_size df = [(k, length df)]"
proof -
  have "remdups (map group_key df) = [k]"
    using assms by (intro remdups_all_equal) auto
  moreover have "filter (\<lambda>r. group_key r = k) df = df"
    using assms by (simp add: filter_id_conv)
  ultimately show ?thesis by (simp add: groupby_size_def)
qed

lemma length_groupby_size: "length (groupby_size df) = card (group_key ` set df)"
  by (simp add: groupby_size_def length_remdups_card_conv)

lemma groupby_size_Nil: "groupby_size [] = []"
  by (simp add: groupby_size_def)

lemma two_geo_types_two_groups:
  assumes "r1 \<in> set df" and "r2 \<in> set df" and "geo_type r1 \<noteq> geo_type r2"
  shows "2 \<le> length (groupby_size df)"
proof -
  have "group_key r1 \<noteq> group_key r2"
    using assms(3) by (simp add: group_key_def)
  then have "card {group_key r1, group_key r2} = 2" by simp
  moreover have "{group_key r1, group_key r2} \<subseteq> group_key ` set df"
    using assms by auto
  then have "card {group_key r1, group_key r2} \<le> card (group_key ` set df)"
    by (intro card_mono) auto
  ultimately show ?thesis by (simp add: length_groupby_size)
qed

text \<open>
  Past the first \<^verbatim>\<open>.iloc[0]\<close> the function is decided by the groups of the one frame it
  asks the endpoint for.
\<close>

lemma get_coverage_unfold:
  assumes rows: "filter (\<lambda>r. data_source r = source s) metadata = first_row # others"
    and latest: "get_latest_time_value_from_metadata s metadata = Inr (Date day)"
  shows "get_coverage endpoint s metadata =
     (let groups = groupby_size (endpoint
            \<lparr>q_data_source = source s, q_signal = signal first_row,
             q_end_day = day, q_start_day = day\<rparr>)
      in if length groups > 1 then Inl (ValueError_rows (length groups))
         else (case groups of [] \<Rightarrow> Inl IndexError
               | (k, c) # _ \<Rightarrow> Inr [\<lparr>cov_signal_id = db_id s, cov_date = day,
                                      cov_geo_type = fst k, cov_count = int c\<rparr>]))"
  by (simp add: get_coverage_def rows latest Let_def)

lemma get_coverage_never_NaT_day: "get_coverage endpoint s metadata \<noteq> Inl NaT_day"
proof (cases "filter (\<lambda>r. data_source r = source s) metadata")
  case Nil
  then show ?thesis
    by (simp add: get_coverage_def get_latest_time_value_from_metadata_def series_max_def)
next
  case (Cons first_row others)
  then have "get_latest_time_value_from_metadata s metadata =
      Inr (Date (fst (fold max (map max_time others) (max_time first_row))))"
    by (simp add: get_latest_time_value_from_metadata_def series_max_def)
  from get_coverage_unfold [OF Cons this] show ?thesis
    by (simp add: Let_def split: list.split prod.split)
qed

lemma example_latest_issue:
  "get_latest_issue_from_metadata reject_rest example_signal example_metadata =
     Inr (Date (2023, 1, 5))"
  by (simp add: get_latest_issue_from_metadata_def example_signal_def example_metadata_def
      example_meta_row_def series_max_def to_datetime_date_def is_yyyymmdd_def
      yyyymmdd_fields_def days_in_month_def is_leap_def)

lemma example_latest_time_value:
  "get_latest_time_value_from_metadata example_signal example_metadata =
     Inr (Date (2023, 1, 4))"
  by (simp add: get_latest_time_value_from_metadata_def example_signal_def
      example_metadata_def example_meta_row_def series_max_def)

lemma example_rows:
  "filter (\<lambda>r. data_source r = source example_signal) example_metadata = example_meta_row # []"
  by (simp add: example_signal_def example_metadata_def example_meta_row_def)

lemma example_query_asked:
  "\<lparr>q_data_source = source example_signal, q_signal = signal example_meta_row,
    q_end_day = (2023, 1, 4), q_start_day = (2023, 1, 4)\<rparr> = example_query"
  by (simp add: example_query_def example_signal_def example_meta_row_def)

lemma county_endpoint_answer:
  "county_endpoint
     \<lparr>q_data_source = source example_signal, q_signal = signal example_meta_row,
      q_end_day = (2023, 1, 4), q_start_day = (2023, 1, 4)\<rparr> = county_rows"
  unfolding example_query_asked by (simp add: county_endpoint_def)

lemma mixed_endpoint_answer:
  "mixed_endpoint
     \<lparr>q_data_source = source example_signal, q_signal = signal example_meta_row,
      q_end_day = (2023, 1, 4), q_start_day = (2023, 1, 4)\<rparr> = mixed_rows"
  unfolding example_query_asked by (simp add: mixed_endpoint_def)

lemma example_max_issue:
  "Max (max_issue ` {r \<in> set example_metadata. data_source r = source example_signal}) =
     int 2023 * 10000 + int 1 * 100 + int 5"
proof -
  have "{r \<in> set example_metadata. data_source r = source example_signal} = {example_meta_row}"
    by (auto simp: example_signal_def example_metadata_def example_meta_row_def)
  then show ?thesis by (simp add: example_meta_row_def)
qed

subsection \<open>C4: the latest issue is the decoded maximum of \<^verbatim>\<open>max_issue\<close>\<close>

text \<open>
  C4. When the metadata table has a row of the signal's source, \<open>latest_issue\<close> is the
  date parser applied to the greatest \<^verbatim>\<open>max_issue\<close> among the rows of that source; and
  when that maximum is written YYYYMMDD, with year \<open>y\<close>, month \<open>m\<close> and day \<open>d\<close> of a
  calendar date, the result is the date \<open>(y, m, d)\<close>.
\<close>

theorem latest_issue_decodes_max_issue:
  assumes "\<exists>r \<in> set metadata. data_source r = source dashboard_signal"
  shows "get_latest_issue_from_metadata rest dashboard_signal metadata =
           to_datetime_date rest
             (Some (Max (max_issue `
                {r \<in> set metadata. data_source r = source dashboard_signal})))
       \<and> (\<forall>y m d.
            Max (max_issue ` {r \<in> set metadata. data_source r = source dashboard_signal}) =
              int y * 10000 + int m * 100 + int d
            \<and> 1678 \<le> y \<and> y \<le> 2261 \<and> 1 \<le> m \<and> m \<le> 12 \<and> 1 \<le> d \<and> d \<le> days_in_month y m
            \<longrightarrow> get_latest_issue_from_metadata rest dashboard_signal metadata =
                  Inr (Date (y, m, d)))"
proof -
  let ?df = "filter (\<lambda>r. data_source r = source dashboard_signal) metadata"
  have ne: "map max_issue ?df \<noteq> []"
    using assms by (simp add: filter_empty_conv)
  have "set (map max_issue ?df) =
          max_issue ` {r \<in> set metadata. data_source r = source dashboard_signal}"
    by simp
  with series_max_eq_Max [OF ne]
  have first: "get_latest_issue_from_metadata rest dashboard_signal metadata =
           to_datetime_date rest
             (Some (Max (max_issue `
                {r \<in> set metadata. data_source r = source dashboard_signal})))"
    by (simp add: get_latest_issue_from_metadata_def)
  show ?thesis
  proof (intro conjI allI impI)
    show "get_latest_issue_from_metadata rest dashboard_signal metadata =
           to_datetime_date rest
             (Some (Max (max_issue `
                {r \<in> set metadata. data_source r = source dashboard_signal})))"
      by (rule first)
  next
    fix y m d
    assume "Max (max_issue ` {r \<in> set metadata. data_source r = source dashboard_signal}) =
              int y * 10000 + int m * 100 + int d
            \<and> 1678 \<le> y \<and> y \<le> 2261 \<and> 1 \<le> m \<and> m \<le> 12 \<and> 1 \<le> d \<and> d \<le> days_in_month y m"
    then show "get_latest_issue_from_metadata rest dashboard_signal metadata =
                 Inr (Date (y, m, d))"
      using first by (simp add: to_datetime_date_encode)
  qed
qed

theorem latest_issue_decodes_max_issue_witness:
  "example_meta_row \<in> set example_metadata
   \<and> data_source example_meta_row = source example_signal
   \<and> get_latest_issue_from_metadata reject_rest example_signal example_metadata =
       Inr (Date (2023, 1, 5))"
proof -
  have h: "\<exists>r \<in> set example_metadata. data_source r = source example_signal"
    by (simp add: example_signal_def example_metadata_def example_meta_row_def)
  have d: "(5::nat) \<le> days_in_month 2023 1"
    by (simp add: days_in_month_def)
  from latest_issue_decodes_max_issue [OF h, of reject_rest]
  have "get_latest_issue_from_metadata reject_rest example_signal example_metadata =
          Inr (Date (2023, 1, 5))"
    using example_max_issue d by (elim conjE allE [of _ 2023] allE [of _ 1] allE [of _ 5]) simp
  then show ?thesis
    by (simp add: example_signal_def example_metadata_def example_meta_row_def)
qed
subsection \<open>C5: a source without metadata rows\<close>

text \<open>
  C5, as the code has it. When no row of the metadata table belongs to the signal's
  source, \<open>latest_issue\<close> and \<open>latest_time_value\<close> raise nothing: both return the
  not-a-time value. The missing metadata shows only in \<open>coverage\<close>, which raises the
  \<open>IndexError\<close> of its first \<^verbatim>\<open>.iloc[0]\<close>.
\<close>

theorem no_metadata_rows_give_NaT:
  assumes "\<forall>r \<in> set metadata. data_source r \<noteq> source dashboard_signal"
  shows "get_latest_issue_from_metadata rest dashboard_signal metadata = Inr NaT
       \<and> get_latest_time_value_from_metadata dashboard_signal metadata = Inr NaT
       \<and> get_coverage endpoint dashboard_signal metadata = Inl IndexError"
proof -
  have "filter (\<lambda>r. data_source r = source dashboard_signal) metadata = []"
    using assms by (simp add: filter_empty_conv)
  then show ?thesis
    by (simp add: get_latest_issue_from_metadata_def get_latest_time_value_from_metadata_def
        get_coverage_def series_max_def to_datetime_date_def)
qed

theorem no_metadata_rows_give_NaT_witness:
  "source stray_signal \<notin> data_source ` set example_metadata
   \<and> get_latest_issue_from_metadata reject_rest stray_signal example_metadata = Inr NaT
   \<and> get_latest_time_value_from_metadata stray_signal example_metadata = Inr NaT
   \<and> get_coverage county_endpoint stray_signal example_metadata = Inl IndexError"
proof -
  have h: "\<forall>r \<in> set example_metadata. data_source r \<noteq> source stray_signal"
    by (simp add: example_metadata_def example_meta_row_def stray_signal_def)
  then have "source stray_signal \<notin> data_source ` set example_metadata"
    by auto
  with no_metadata_rows_give_NaT [OF h, of reject_rest county_endpoint] show ?thesis
    by simp
qed

text \<open>
  The claim as the specification words it asks both functions to fail. On the example
  metadata, which has no row of the source \<^verbatim>\<open>nowhere\<close>, neither result is an
  exception.
\<close>

theorem no_metadata_rows_counterexample:
  "source stray_signal \<notin> data_source ` set example_metadata
   \<and> \<not> isl (get_latest_issue_from_metadata reject_rest stray_signal example_metadata)
   \<and> \<not> isl (get_latest_time_value_from_metadata stray_signal example_metadata)"
  by (simp add: get_latest_issue_from_metadata_def get_latest_time_value_from_metadata_def
      example_metadata_def example_meta_row_def stray_signal_def series_max_def
      to_datetime_date_def)

subsection \<open>C10: only the id and the source of a signal are read\<close>

text \<open>
  C10. Two signals with the same \<open>db_id\<close> and the same \<open>source\<close> get the same
  \<open>latest_issue\<close>, the same \<open>latest_time_value\<close> and the same \<open>coverage\<close>, whatever
  their names and their two watermark fields are.
\<close>

theorem computations_read_only_id_and_source:
  assumes "db_id s1 = db_id s2" and "source s1 = source s2"
  shows "get_latest_issue_from_metadata rest s1 metadata =
           get_latest_issue_from_metadata rest s2 metadata
       \<and> get_latest_time_value_from_metadata s1 metadata =
           get_latest_time_value_from_metadata s2 metadata
       \<and> get_coverage endpoint s1 metadata = get_coverage endpoint s2 metadata"
  unfolding get_latest_issue_from_metadata_def get_latest_time_value_from_metadata_def
    get_coverage_def assms
  by simp

theorem computations_read_only_id_and_source_witness:
  "db_id example_signal = db_id renamed_signal
   \<and> source example_signal = source renamed_signal
   \<and> name example_signal \<noteq> name renamed_signal
   \<and> latest_coverage_update example_signal \<noteq> latest_coverage_update renamed_signal
   \<and> latest_status_update example_signal \<noteq> latest_status_update renamed_signal
   \<and> get_latest_issue_from_metadata reject_rest renamed_signal example_metadata =
       Inr (Date (2023, 1, 5))
   \<and> get_latest_time_value_from_metadata renamed_signal example_metadata =
       Inr (Date (2023, 1, 4))
   \<and> get_coverage county_endpoint example_signal example_metadata =
       get_coverage county_endpoint renamed_signal example_metadata"
proof -
  have h1: "db_id example_signal = db_id renamed_signal"
    and h2: "source example_signal = source renamed_signal"
    by (simp_all add: example_signal_def renamed_signal_def)
  from computations_read_only_id_and_source
         [OF h1 h2, of reject_rest example_metadata county_endpoint]
  show ?thesis
    using example_latest_issue example_latest_time_value
    by (simp add: example_signal_def renamed_signal_def)
qed

subsection \<open>C1: one geo type on the target day\<close>

lemma county_rows_group:
  "\<forall>r \<in> set county_rows. geo_type r = ''county''"
  by (simp add: county_rows_def example_ts_row_def)

lemma county_rows_asked:
  "\<forall>r \<in> set county_rows.
     row_data_source r = source example_signal \<and> row_signal r = signal example_meta_row
     \<and> time_value r = (2023, 1, 4)"
  by (simp add: county_rows_def example_ts_row_def example_signal_def example_meta_row_def)

text \<open>
  C1. Let the signal's source have metadata rows, the first of them \<open>first_row\<close>, and
  let \<open>day\<close> be the derived \<open>latest_time_value\<close>. The endpoint is asked once, for the
  signal's source, the signal name of \<open>first_row\<close>, and the one day \<open>day\<close>. When its
  answer to that query is a non-empty frame whose rows all have the geo type \<open>g\<close>
  (and are rows of what was asked: that source, that signal, that day), \<open>coverage\<close>
  returns the one-element list with the signal's id, \<open>day\<close>, \<open>g\<close> and the number of
  rows.
\<close>

theorem coverage_of_one_geo_type:
  assumes rows: "filter (\<lambda>r. data_source r = source s) metadata = first_row # others"
    and latest: "get_latest_time_value_from_metadata s metadata = Inr (Date day)"
    and answer: "endpoint \<lparr>q_data_source = source s, q_signal = signal first_row,
                   q_end_day = day, q_start_day = day\<rparr> = latest_data"
    and nonempty: "latest_data \<noteq> []"
    and one_geo: "\<forall>r \<in> set latest_data. geo_type r = g"
    and asked: "\<forall>r \<in> set latest_data.
                  row_data_source r = source s \<and> row_signal r = signal first_row
                  \<and> time_value r = day"
  shows "get_coverage endpoint s metadata =
           Inr [\<lparr>cov_signal_id = db_id s, cov_date = day, cov_geo_type = g,
                 cov_count = int (length latest_data)\<rparr>]"
proof -
  have "\<forall>r \<in> set latest_data. group_key r = (g, source s, day, signal first_row)"
    using one_geo asked by (simp add: group_key_def)
  with nonempty
  have "groupby_size latest_data =
          [((g, source s, day, signal first_row), length latest_data)]"
    by (rule groupby_size_one_group)
  then show ?thesis
    by (simp add: get_coverage_unfold [OF rows latest] answer)
qed

theorem coverage_of_one_geo_type_witness:
  "filter (\<lambda>r. data_source r = source example_signal) example_metadata = [example_meta_row]
   \<and> get_latest_time_value_from_metadata example_signal example_metadata =
       Inr (Date (2023, 1, 4))
   \<and> county_endpoint example_query = county_rows
   \<and> length county_rows = 3
   \<and> get_coverage county_endpoint example_signal example_metadata =
       Inr [\<lparr>cov_signal_id = 1, cov_date = (2023, 1, 4), cov_geo_type = ''county'',
             cov_count = 3\<rparr>]"
proof -
  have answer: "county_endpoint
      \<lparr>q_data_source = source example_signal, q_signal = signal example_meta_row,
       q_end_day = (2023, 1, 4), q_start_day = (2023, 1, 4)\<rparr> = county_rows"
    by (rule county_endpoint_answer)
  have nonempty: "county_rows \<noteq> []"
    by (simp add: county_rows_def)
  from coverage_of_one_geo_type
         [where endpoint = county_endpoint and s = example_signal
            and metadata = example_metadata,
          OF example_rows example_latest_time_value answer nonempty
             county_rows_group county_rows_asked]
  have "get_coverage county_endpoint example_signal example_metadata =
          Inr [\<lparr>cov_signal_id = db_id example_signal, cov_date = (2023, 1, 4),
                cov_geo_type = ''county'', cov_count = int (length county_rows)\<rparr>]" .
  moreover have "length county_rows = 3"
    by (simp add: county_rows_def)
  moreover have "db_id example_signal = 1"
    by (simp add: example_signal_def)
  ultimately show ?thesis
    using example_rows example_latest_time_value
    by (simp add: county_endpoint_def)
qed

subsection \<open>C2: several geo types; no row\<close>

text \<open>
  What \<open>get_coverage\<close> does when the endpoint has no row for the day: the check
  \<^verbatim>\<open>len(count_by_geo_type_df) > 1\<close> passes, and the read of the first group raises.
\<close>

lemma get_coverage_no_rows:
  assumes rows: "filter (\<lambda>r. data_source r = source s) metadata = first_row # others"
    and latest: "get_latest_time_value_from_metadata s metadata = Inr (Date day)"
    and answer: "endpoint \<lparr>q_data_source = source s, q_signal = signal first_row,
                   q_end_day = day, q_start_day = day\<rparr> = []"
  shows "get_coverage endpoint s metadata = Inl IndexError"
  by (simp add: get_coverage_unfold [OF rows latest] answer groupby_size_Nil)

text \<open>
  C2, as the code has it. Let the signal's source have metadata rows, the first of
  them \<open>first_row\<close>, and let \<open>day\<close> be the derived \<open>latest_time_value\<close>. When two rows
  of the endpoint's answer to the query for that day differ in their geo type,
  \<open>coverage\<close> fails with the \<^verbatim>\<open>ValueError\<close> of its check, \<^verbatim>\<open>Expected one row for
  coverage, got n\<close>, where \<open>n\<close> is the number of groups and is at least two. Nothing is
  stated for an answer without rows.
\<close>

theorem coverage_fails_on_several_geo_types:
  assumes rows: "filter (\<lambda>r. data_source r = source s) metadata = first_row # others"
    and latest: "get_latest_time_value_from_metadata s metadata = Inr (Date day)"
    and answer: "endpoint \<lparr>q_data_source = source s, q_signal = signal first_row,
                   q_end_day = day, q_start_day = day\<rparr> = latest_data"
    and spans: "\<exists>r1 \<in> set latest_data. \<exists>r2 \<in> set latest_data. geo_type r1 \<noteq> geo_type r2"
  shows "get_coverage endpoint s metadata =
           Inl (ValueError_rows (card (group_key ` set latest_data)))
       \<and> 2 \<le> card (group_key ` set latest_data)"
proof -
  from spans have two: "2 \<le> length (groupby_size latest_data)"
    by (auto intro: two_geo_types_two_groups)
  then have "get_coverage endpoint s metadata =
               Inl (ValueError_rows (card (group_key ` set latest_data)))"
    by (simp add: get_coverage_unfold [OF rows latest] answer length_groupby_size)
  moreover from two have "2 \<le> card (group_key ` set latest_data)"
    by (simp add: length_groupby_size)
  ultimately show ?thesis ..
qed

lemma mixed_rows_groups: "card (group_key ` set mixed_rows) = 2"
proof -
  have "group_key ` set mixed_rows =
          {(''county'', ''src'', (2023, 1, 4), ''sig''), (''state'', ''src'', (2023, 1, 4), ''sig'')}"
    by (simp add: mixed_rows_def example_ts_row_def group_key_def)
  then show ?thesis by simp
qed

theorem coverage_fails_on_several_geo_types_witness:
  "mixed_endpoint example_query = mixed_rows
   \<and> example_ts_row ''county'' ''01001'' \<in> set mixed_rows
   \<and> example_ts_row ''state'' ''al'' \<in> set mixed_rows
   \<and> geo_type (example_ts_row ''county'' ''01001'') \<noteq> geo_type (example_ts_row ''state'' ''al'')
   \<and> get_coverage mixed_endpoint example_signal example_metadata = Inl (ValueError_rows 2)"
proof -
  have members: "example_ts_row ''county'' ''01001'' \<in> set mixed_rows"
    "example_ts_row ''state'' ''al'' \<in> set mixed_rows"
    by (simp_all add: mixed_rows_def)
  have differ:
    "geo_type (example_ts_row ''county'' ''01001'') \<noteq> geo_type (example_ts_row ''state'' ''al'')"
    by (simp add: example_ts_row_def)
  from members differ
  have spans: "\<exists>r1 \<in> set mixed_rows. \<exists>r2 \<in> set mixed_rows. geo_type r1 \<noteq> geo_type r2"
    by blast
  from coverage_fails_on_several_geo_types
         [where endpoint = mixed_endpoint and s = example_signal
            and metadata = example_metadata,
          OF example_rows example_latest_time_value mixed_endpoint_answer spans]
  have "get_coverage mixed_endpoint example_signal example_metadata =
          Inl (ValueError_rows (card (group_key ` set mixed_rows)))"
    by (rule conjunct1)
  then have failed:
    "get_coverage mixed_endpoint example_signal example_metadata = Inl (ValueError_rows 2)"
    by (simp only: mixed_rows_groups)
  have asked: "mixed_endpoint example_query = mixed_rows"
    by (simp add: mixed_endpoint_def)
  from asked members differ failed show ?thesis
    by (intro conjI)
qed

text \<open>
  The claim as the specification words it also has \<open>coverage\<close> fail its check on an
  answer without rows, and signal that as a condition of its own. On the example
  metadata, with an endpoint that has no row for the day, the result is not the
  \<^verbatim>\<open>ValueError\<close> of the check, for no number of rows: it is the \<open>IndexError\<close> of
  \<^verbatim>\<open>.iloc[0]\<close>, the very result that a signal without metadata rows gets.
\<close>

theorem coverage_of_no_rows_counterexample:
  "empty_endpoint example_query = []
   \<and> get_coverage empty_endpoint example_signal example_metadata = Inl IndexError
   \<and> get_coverage empty_endpoint example_signal example_metadata \<noteq> Inl (ValueError_rows 0)
   \<and> get_coverage empty_endpoint stray_signal example_metadata =
       get_coverage empty_endpoint example_signal example_metadata"
proof -
  have answer: "empty_endpoint
      \<lparr>q_data_source = source example_signal, q_signal = signal example_meta_row,
       q_end_day = (2023, 1, 4), q_start_day = (2023, 1, 4)\<rparr> = []"
    by (simp add: empty_endpoint_def)
  have none: "get_coverage empty_endpoint example_signal example_metadata = Inl IndexError"
    using example_rows example_latest_time_value answer by (rule get_coverage_no_rows)
  have stray: "get_coverage empty_endpoint stray_signal example_metadata = Inl IndexError"
    by (simp add: get_coverage_def get_latest_time_value_from_metadata_def series_max_def
        example_metadata_def example_meta_row_def stray_signal_def)
  from none stray show ?thesis
    by (simp add: empty_endpoint_def)
qed

section \<open>Properties of the registry store\<close>

subsection \<open>The status table under \<^verbatim>\<open>INSERT ... ON DUPLICATE KEY UPDATE\<close>\<close>

lemma status_row_overwritten:
  "status_key r = status_key x \<Longrightarrow>
     r\<lparr>st_latest_issue := st_latest_issue x,
       st_latest_time_value := st_latest_time_value x\<rparr> = x"
  by (cases r, cases x) (simp add: status_key_def)

lemma upsert_status_Cons:
  "upsert_status x (r # rs) =
     (if status_key r = status_key x then x # rs else r # upsert_status x rs)"
  by (simp add: status_row_overwritten)

lemma upsert_status_keys:
  "status_key ` set (upsert_status x T) = insert (status_key x) (status_key ` set T)"
  by (induction T) (auto simp: upsert_status_Cons simp del: upsert_status.simps(2))

lemma fold_upsert_status_keys:
  "status_key ` set (fold upsert_status b T) = status_key ` set b \<union> status_key ` set T"
  by (induction b arbitrary: T) (auto simp: upsert_status_keys)

lemma upsert_status_twice: "upsert_status x (upsert_status x T) = upsert_status x T"
  by (induction T) (simp_all add: upsert_status_Cons del: upsert_status.simps(2))

lemma upsert_status_same_key:
  "status_key x = status_key y \<Longrightarrow> upsert_status x (upsert_status y T) = upsert_status x T"
  by (induction T) (simp_all add: upsert_status_Cons del: upsert_status.simps(2))

lemma upsert_status_swap:
  "status_key x \<noteq> status_key y \<Longrightarrow> status_key x \<in> status_key ` set T \<Longrightarrow>
     upsert_status x (upsert_status y T) = upsert_status y (upsert_status x T)"
proof (induction T)
  case Nil
  then show ?case by simp
next
  case (Cons r rs)
  show ?case
  proof (cases "status_key r = status_key x")
    case True
    with Cons.prems show ?thesis
      by (simp add: upsert_status_Cons del: upsert_status.simps(2))
  next
    case False
    with Cons.prems have "status_key x \<in> status_key ` set rs" by auto
    with Cons.IH Cons.prems(1) False show ?thesis
      by (simp add: upsert_status_Cons del: upsert_status.simps(2))
  qed
qed

lemma fold_upsert_status_absorbs:
  "status_key x \<in> status_key ` set b \<Longrightarrow> status_key x \<in> status_key ` set U \<Longrightarrow>
     fold upsert_status b (upsert_status x U) = fold upsert_status b U"
proof (induction b arbitrary: U)
  case Nil
  then show ?case by simp
next
  case (Cons y b)
  show ?case
  proof (cases "status_key y = status_key x")
    case True
    then show ?thesis by (simp add: upsert_status_same_key)
  next
    case False
    with Cons.prems have in_b: "status_key x \<in> status_key ` set b" by auto
    have in_U: "status_key x \<in> status_key ` set (upsert_status y U)"
      using Cons.prems(2) by (simp add: upsert_status_keys)
    from False have "status_key x \<noteq> status_key y" by simp
    then have "upsert_status y (upsert_status x U) = upsert_status x (upsert_status y U)"
      using Cons.prems(2) by (rule upsert_status_swap [symmetric])
    then show ?thesis
      using Cons.IH [OF in_b in_U] by simp
  qed
qed

lemma fold_upsert_status_commutes:
  "status_key x \<notin> status_key ` set b \<Longrightarrow> status_key x \<in> status_key ` set U \<Longrightarrow>
     fold upsert_status b (upsert_status x U) = upsert_status x (fold upsert_status b U)"
proof (induction b arbitrary: U)
  case Nil
  then show ?case by simp
next
  case (Cons y b)
  from Cons.prems have differ: "status_key x \<noteq> status_key y"
    and not_in_b: "status_key x \<notin> status_key ` set b" by auto
  have in_U: "status_key x \<in> status_key ` set (upsert_status y U)"
    using Cons.prems(2) by (simp add: upsert_status_keys)
  have "upsert_status y (upsert_status x U) = upsert_status x (upsert_status y U)"
    using differ Cons.prems(2) by (rule upsert_status_swap [symmetric])
  then show ?case
    using Cons.IH [OF not_in_b in_U] by simp
qed

lemma fold_upsert_status_twice:
  "fold upsert_status b (fold upsert_status b T) = fold upsert_status b T"
proof (induction b arbitrary: T)
  case Nil
  then show ?case by simp
next
  case (Cons x b)
  let ?T1 = "upsert_status x T"
  let ?S = "fold upsert_status b ?T1"
  have in_T1: "status_key x \<in> status_key ` set ?T1"
    by (simp add: upsert_status_keys)
  have in_S: "status_key x \<in> status_key ` set ?S"
    by (simp add: fold_upsert_status_keys upsert_status_keys)
  have "fold upsert_status b (upsert_status x ?S) = ?S"
  proof (cases "status_key x \<in> status_key ` set b")
    case True
    then have "fold upsert_status b (upsert_status x ?S) = fold upsert_status b ?S"
      using in_S by (rule fold_upsert_status_absorbs)
    then show ?thesis by (simp add: Cons.IH)
  next
    case False
    then have "fold upsert_status b (upsert_status x ?S) =
                 upsert_status x (fold upsert_status b ?S)"
      using in_S by (rule fold_upsert_status_commutes)
    also have "\<dots> = upsert_status x ?S" by (simp add: Cons.IH)
    also have "\<dots> = fold upsert_status b (upsert_status x ?T1)"
      using False in_T1 by (rule fold_upsert_status_commutes [symmetric])
    also have "\<dots> = ?S" by (simp add: upsert_status_twice)
    finally show ?thesis .
  qed
  then show ?case by simp
qed

lemma find_upsert_status:
  "find (\<lambda>r. status_key r = k) (upsert_status x T) =
     (if status_key x = k then Some x else find (\<lambda>r. status_key r = k) T)"
  by (induction T) (auto simp: upsert_status_Cons simp del: upsert_status.simps(2))

lemma find_fold_upsert_status:
  "find (\<lambda>r. status_key r = k) (fold upsert_status b T) =
     (case find (\<lambda>y. status_key y = k) (rev b) of
        Some y \<Rightarrow> Some y
      | None \<Rightarrow> find (\<lambda>r. status_key r = k) T)"
  by (induction b rule: rev_induct) (simp_all add: find_upsert_status)

lemma find_fold_upsert_status_written:
  assumes "x \<in> set b"
  shows "find (\<lambda>r. status_key r = status_key x) (fold upsert_status b T) =
           find (\<lambda>y. status_key y = status_key x) (rev b)"
proof -
  have "find (\<lambda>y. status_key y = status_key x) (rev b) \<noteq> None"
    using assms by (auto simp: find_None_iff)
  then show ?thesis
    by (auto simp: find_fold_upsert_status split: option.split)
qed

lemma distinct_upsert_status:
  "distinct (map status_key T) \<Longrightarrow> distinct (map status_key (upsert_status x T))"
proof (induction T)
  case Nil
  then show ?case by simp
next
  case (Cons r rs)
  then show ?case
    using upsert_status_keys [of x rs]
    by (auto simp: upsert_status_Cons simp del: upsert_status.simps(2))
qed

lemma distinct_fold_upsert_status:
  "distinct (map status_key T) \<Longrightarrow> distinct (map status_key (fold upsert_status b T))"
  by (induction b arbitrary: T) (simp_all add: distinct_upsert_status)

subsection \<open>The dictionary of latest dates and the watermark updates\<close>

lemma latest_date_step_map_of:
  "map_of (latest_date_step x al) k =
     (if fst x = k
      then Some (case map_of al k of None \<Rightarrow> snd x | Some v \<Rightarrow> max v (snd x))
      else map_of al k)"
  by (auto simp: latest_date_step_def update_conv' max_def split: option.split)

lemma latest_date_step_distinct:
  "distinct (map fst al) \<Longrightarrow> distinct (map fst (latest_date_step x al))"
  by (simp add: latest_date_step_def distinct_update split: option.split)

lemma latest_dates_snoc: "latest_dates (b @ [x]) = latest_date_step x (latest_dates b)"
  by (simp add: latest_dates_def)

lemma distinct_latest_dates: "distinct (map fst (latest_dates b))"
proof (induction b rule: rev_induct)
  case Nil
  then show ?case by (simp add: latest_dates_def)
next
  case (snoc x b)
  then show ?case by (simp add: latest_dates_snoc latest_date_step_distinct)
qed

lemma finite_dates_of: "finite (dates_of i b)"
  by (simp add: dates_of_def)

lemma dates_of_snoc:
  "dates_of i (b @ [x]) = (if fst x = i then insert (snd x) (dates_of i b) else dates_of i b)"
  by (auto simp: dates_of_def)

lemma dates_of_append: "dates_of i (b @ c) = dates_of i b \<union> dates_of i c"
  by (auto simp: dates_of_def)

lemma dates_of_Nil: "dates_of i [] = {}"
  by (simp add: dates_of_def)

text \<open>
  The dictionary holds, for each signal of the batch, the greatest date among the
  entries of that batch for the signal, and nothing for any other signal.
\<close>

lemma map_of_latest_dates:
  "map_of (latest_dates b) i =
     (if dates_of i b = {} then None else Some (Max (dates_of i b)))"
proof (induction b rule: rev_induct)
  case Nil
  then show ?case by (simp add: latest_dates_def dates_of_Nil)
next
  case (snoc x b)
  show ?case
  proof (cases "fst x = i")
    case False
    with snoc show ?thesis
      by (simp add: latest_dates_snoc latest_date_step_map_of dates_of_snoc)
  next
    case True
    show ?thesis
    proof (cases "dates_of i b = {}")
      case True
      with \<open>fst x = i\<close> snoc show ?thesis
        by (simp add: latest_dates_snoc latest_date_step_map_of dates_of_snoc)
    next
      case False
      then have "Max (insert (snd x) (dates_of i b)) = max (snd x) (Max (dates_of i b))"
        by (simp add: finite_dates_of)
      with False \<open>fst x = i\<close> snoc show ?thesis
        by (simp add: latest_dates_snoc latest_date_step_map_of dates_of_snoc max.commute)
    qed
  qed
qed

lemma Max_insert_Max:
  assumes "finite A" and "finite B"
  shows "Max (insert (Max (insert (w::'a::linorder) A)) B) = Max (insert w (A \<union> B))"
proof (rule Max_eqI)
  show "finite (insert (Max (insert w A)) B)"
    using assms by simp
next
  fix y
  assume "y \<in> insert (Max (insert w A)) B"
  then show "y \<le> Max (insert w (A \<union> B))"
    using assms by (auto intro!: Max_mono)
next
  have "Max (insert w (A \<union> B)) \<in> insert w (A \<union> B)"
    using assms by (intro Max_in) auto
  moreover have "Max (insert w (A \<union> B)) \<in> insert w A \<Longrightarrow>
      Max (insert w (A \<union> B)) = Max (insert w A)"
    using assms by (intro antisym Max_ge Max_mono) auto
  ultimately show "Max (insert w (A \<union> B)) \<in> insert (Max (insert w A)) B"
    by auto
qed

lemma fold_update_latest_status:
  assumes "distinct (map fst al)"
  shows "fold update_latest_status (map (\<lambda>(k, v). (v, k)) al) tbl =
           map (\<lambda>r. case map_of al (row_id r) of
                       None \<Rightarrow> r
                     | Some v \<Rightarrow> r\<lparr>row_latest_status_update :=
                                      max (row_latest_status_update r) v\<rparr>) tbl"
  using assms
proof (induction al arbitrary: tbl)
  case Nil
  then show ?case by (simp add: map_idI)
next
  case (Cons p al)
  obtain k v where p: "p = (k, v)" by (cases p)
  from Cons.prems p have fresh: "map_of al k = None" and rest: "distinct (map fst al)"
    by (auto simp: map_of_eq_None_iff)
  let ?h = "\<lambda>al r. case map_of al (row_id r) of
                       None \<Rightarrow> r
                     | Some v \<Rightarrow> r\<lparr>row_latest_status_update :=
                                      max (row_latest_status_update r) v\<rparr>"
  have "fold update_latest_status (map (\<lambda>(k, v). (v, k)) (p # al)) tbl =
          fold update_latest_status (map (\<lambda>(k, v). (v, k)) al) (update_latest_status (v, k) tbl)"
    by (simp add: p)
  also have "\<dots> = map (?h al) (update_latest_status (v, k) tbl)"
    by (rule Cons.IH [OF rest])
  also have "\<dots> = map (?h (p # al)) tbl"
    by (simp add: update_latest_status_def p fresh)
  finally show ?case .
qed

lemma fold_update_latest_coverage:
  assumes "distinct (map fst al)"
  shows "fold update_latest_coverage (map (\<lambda>(k, v). (v, k)) al) tbl =
           map (\<lambda>r. case map_of al (row_id r) of
                       None \<Rightarrow> r
                     | Some v \<Rightarrow> r\<lparr>row_latest_coverage_update :=
                                      max (row_latest_coverage_update r) v\<rparr>) tbl"
  using assms
proof (induction al arbitrary: tbl)
  case Nil
  then show ?case by (simp add: map_idI)
next
  case (Cons p al)
  obtain k v where p: "p = (k, v)" by (cases p)
  from Cons.prems p have fresh: "map_of al k = None" and rest: "distinct (map fst al)"
    by (auto simp: map_of_eq_None_iff)
  let ?h = "\<lambda>al r. case map_of al (row_id r) of
                       None \<Rightarrow> r
                     | Some v \<Rightarrow> r\<lparr>row_latest_coverage_update :=
                                      max (row_latest_coverage_update r) v\<rparr>"
  have "fold update_latest_coverage (map (\<lambda>(k, v). (v, k)) (p # al)) tbl =
          fold update_latest_coverage (map (\<lambda>(k, v). (v, k)) al) (update_latest_coverage (v, k) tbl)"
    by (simp add: p)
  also have "\<dots> = map (?h al) (update_latest_coverage (v, k) tbl)"
    by (rule Cons.IH [OF rest])
  also have "\<dots> = map (?h (p # al)) tbl"
    by (simp add: update_latest_coverage_def p fresh)
  finally show ?case .
qed

text \<open>
  All the update statements of a batch together set each watermark to the greatest of
  its stored value and the dates of the batch for that signal.
\<close>

lemma latest_status_updates:
  "fold update_latest_status (latest_tuples b) tbl =
     map (\<lambda>r. r\<lparr>row_latest_status_update :=
                  Max (insert (row_latest_status_update r) (dates_of (row_id r) b))\<rparr>) tbl"
proof -
  have "(case map_of (latest_dates b) (row_id r) of
           None \<Rightarrow> r
         | Some v \<Rightarrow> r\<lparr>row_latest_status_update := max (row_latest_status_update r) v\<rparr>) =
        r\<lparr>row_latest_status_update :=
            Max (insert (row_latest_status_update r) (dates_of (row_id r) b))\<rparr>" for r
    by (simp add: map_of_latest_dates finite_dates_of)
  then have "\<forall>r \<in> set tbl.
      (case map_of (latest_dates b) (row_id r) of
           None \<Rightarrow> r
         | Some v \<Rightarrow> r\<lparr>row_latest_status_update := max (row_latest_status_update r) v\<rparr>) =
        r\<lparr>row_latest_status_update :=
            Max (insert (row_latest_status_update r) (dates_of (row_id r) b))\<rparr>"
    by blast
  then show ?thesis
    by (simp add: latest_tuples_def fold_update_latest_status [OF distinct_latest_dates])
qed

lemma latest_coverage_updates:
  "fold update_latest_coverage (latest_tuples b) tbl =
     map (\<lambda>r. r\<lparr>row_latest_coverage_update :=
                  Max (insert (row_latest_coverage_update r) (dates_of (row_id r) b))\<rparr>) tbl"
proof -
  have "(case map_of (latest_dates b) (row_id r) of
           None \<Rightarrow> r
         | Some v \<Rightarrow> r\<lparr>row_latest_coverage_update := max (row_latest_coverage_update r) v\<rparr>) =
        r\<lparr>row_latest_coverage_update :=
            Max (insert (row_latest_coverage_update r) (dates_of (row_id r) b))\<rparr>" for r
    by (simp add: map_of_latest_dates finite_dates_of)
  then have "\<forall>r \<in> set tbl.
      (case map_of (latest_dates b) (row_id r) of
           None \<Rightarrow> r
         | Some v \<Rightarrow> r\<lparr>row_latest_coverage_update := max (row_latest_coverage_update r) v\<rparr>) =
        r\<lparr>row_latest_coverage_update :=
            Max (insert (row_latest_coverage_update r) (dates_of (row_id r) b))\<rparr>"
    by blast
  then show ?thesis
    by (simp add: latest_tuples_def fold_update_latest_coverage [OF distinct_latest_dates])
qed

subsection \<open>The two writes\<close>

lemma dates_of_status_pairs:
  "dates_of i (status_pairs b) = st_date ` {x \<in> set b. st_signal_id x = i}"
  by (force simp: dates_of_def status_pairs_def)

lemma dates_of_coverage_pairs:
  "dates_of i (coverage_pairs b) = cov_date ` {x \<in> set b. cov_signal_id x = i}"
  by (force simp: dates_of_def coverage_pairs_def)

lemma write_status_No_fault:
  "write_status No_fault db status_list =
     (Inr (),
      \<lparr>session = (session db)
         \<lparr>status_table := fold upsert_status status_list (status_table (session db)),
          signal_table :=
            map (\<lambda>r. r\<lparr>row_latest_status_update :=
                         Max (insert (row_latest_status_update r)
                                (dates_of (row_id r) (status_pairs status_list)))\<rparr>)
                (signal_table (session db))\<rparr>,
       committed = (session db)
         \<lparr>status_table := fold upsert_status status_list (status_table (session db)),
          signal_table :=
            map (\<lambda>r. r\<lparr>row_latest_status_update :=
                         Max (insert (row_latest_status_update r)
                                (dates_of (row_id r) (status_pairs status_list)))\<rparr>)
                (signal_table (session db))\<rparr>\<rparr>)"
  by (simp add: write_status_def insert_raises_def update_raises_def updates_run_def
      latest_status_updates Let_def)

lemma write_coverage_No_fault:
  "write_coverage No_fault db coverage_list =
     (Inr (),
      \<lparr>session = (session db)
         \<lparr>coverage_table := fold insert_coverage coverage_list (coverage_table (session db)),
          signal_table :=
            map (\<lambda>r. r\<lparr>row_latest_coverage_update :=
                         Max (insert (row_latest_coverage_update r)
                                (dates_of (row_id r) (coverage_pairs coverage_list)))\<rparr>)
                (signal_table (session db))\<rparr>,
       committed = (session db)
         \<lparr>coverage_table := fold insert_coverage coverage_list (coverage_table (session db)),
          signal_table :=
            map (\<lambda>r. r\<lparr>row_latest_coverage_update :=
                         Max (insert (row_latest_coverage_update r)
                                (dates_of (row_id r) (coverage_pairs coverage_list)))\<rparr>)
                (signal_table (session db))\<rparr>\<rparr>)"
  by (simp add: write_coverage_def insert_raises_def update_raises_def updates_run_def
      latest_coverage_updates Let_def)

lemma watermarks_advance_refl: "watermarks_advance tbl tbl"
  by (simp add: watermarks_advance_def list_all2_same)

lemma watermarks_advance_trans:
  assumes "watermarks_advance a b" and "watermarks_advance b c"
  shows "watermarks_advance a c"
proof -
  let ?P = "\<lambda>r r'. row_id r' = row_id r
              \<and> row_latest_status_update r \<le> row_latest_status_update r'
              \<and> row_latest_coverage_update r \<le> row_latest_coverage_update r'"
  from assms have ab: "list_all2 ?P a b" and bc: "list_all2 ?P b c"
    by (simp_all add: watermarks_advance_def)
  have "list_all2 ?P a c"
    by (rule list_all2_trans [OF _ ab bc]) auto
  then show ?thesis
    by (simp add: watermarks_advance_def)
qed

lemma update_latest_status_advances: "watermarks_advance tbl (update_latest_status p tbl)"
  by (simp add: watermarks_advance_def update_latest_status_def list_all2_map2 list_all2_same)

lemma update_latest_coverage_advances: "watermarks_advance tbl (update_latest_coverage p tbl)"
  by (simp add: watermarks_advance_def update_latest_coverage_def list_all2_map2 list_all2_same)

lemma fold_update_latest_status_advances:
  "watermarks_advance tbl (fold update_latest_status ps tbl)"
proof (induction ps arbitrary: tbl)
  case Nil
  then show ?case by (simp add: watermarks_advance_refl)
next
  case (Cons p ps)
  from update_latest_status_advances Cons.IH show ?case
    unfolding fold_simps by (rule watermarks_advance_trans)
qed

lemma fold_update_latest_coverage_advances:
  "watermarks_advance tbl (fold update_latest_coverage ps tbl)"
proof (induction ps arbitrary: tbl)
  case Nil
  then show ?case by (simp add: watermarks_advance_refl)
next
  case (Cons p ps)
  from update_latest_coverage_advances Cons.IH show ?case
    unfolding fold_simps by (rule watermarks_advance_trans)
qed

lemma write_status_advances:
  "watermarks_advance (signal_table (session db))
     (signal_table (session (snd (write_status f db status_list))))"
  by (simp add: write_status_def Let_def watermarks_advance_refl
      fold_update_latest_status_advances)

lemma write_coverage_advances:
  "watermarks_advance (signal_table (session db))
     (signal_table (session (snd (write_coverage f db coverage_list))))"
  by (simp add: write_coverage_def Let_def watermarks_advance_refl
      fold_update_latest_coverage_advances)

lemma status_pairs_append: "status_pairs (a @ b) = status_pairs a @ status_pairs b"
  by (simp add: status_pairs_def)

lemma coverage_pairs_append: "coverage_pairs (a @ b) = coverage_pairs a @ coverage_pairs b"
  by (simp add: coverage_pairs_def)

lemma write_status_sequence:
  "signal_table (session (fold (\<lambda>b d. snd (write_status No_fault d b)) batches db)) =
     map (\<lambda>r. r\<lparr>row_latest_status_update :=
                  Max (insert (row_latest_status_update r)
                         (dates_of (row_id r) (status_pairs (concat batches))))\<rparr>)
         (signal_table (session db))"
proof (induction batches arbitrary: db)
  case Nil
  then show ?case by (simp add: status_pairs_def dates_of_Nil map_idI)
next
  case (Cons b batches)
  let ?db1 = "snd (write_status No_fault db b)"
  have "signal_table (session (fold (\<lambda>b d. snd (write_status No_fault d b)) (b # batches) db)) =
          signal_table (session (fold (\<lambda>b d. snd (write_status No_fault d b)) batches ?db1))"
    by simp
  also have "\<dots> =
     map (\<lambda>r. r\<lparr>row_latest_status_update :=
                  Max (insert (row_latest_status_update r)
                         (dates_of (row_id r) (status_pairs (concat batches))))\<rparr>)
         (signal_table (session ?db1))"
    by (rule Cons.IH)
  also have "signal_table (session ?db1) =
     map (\<lambda>r. r\<lparr>row_latest_status_update :=
                  Max (insert (row_latest_status_update r)
                         (dates_of (row_id r) (status_pairs b)))\<rparr>)
         (signal_table (session db))"
    by (simp add: write_status_No_fault)
  finally show ?case
    by (simp add: status_pairs_append dates_of_append Max_insert_Max finite_dates_of)
qed

lemma write_coverage_sequence:
  "signal_table (session (fold (\<lambda>b d. snd (write_coverage No_fault d b)) batches db)) =
     map (\<lambda>r. r\<lparr>row_latest_coverage_update :=
                  Max (insert (row_latest_coverage_update r)
                         (dates_of (row_id r) (coverage_pairs (concat batches))))\<rparr>)
         (signal_table (session db))"
proof (induction batches arbitrary: db)
  case Nil
  then show ?case by (simp add: coverage_pairs_def dates_of_Nil map_idI)
next
  case (Cons b batches)
  let ?db1 = "snd (write_coverage No_fault db b)"
  have "signal_table (session (fold (\<lambda>b d. snd (write_coverage No_fault d b)) (b # batches) db)) =
          signal_table (session (fold (\<lambda>b d. snd (write_coverage No_fault d b)) batches ?db1))"
    by simp
  also have "\<dots> =
     map (\<lambda>r. r\<lparr>row_latest_coverage_update :=
                  Max (insert (row_latest_coverage_update r)
                         (dates_of (row_id r) (coverage_pairs (concat batches))))\<rparr>)
         (signal_table (session ?db1))"
    by (rule Cons.IH)
  also have "signal_table (session ?db1) =
     map (\<lambda>r. r\<lparr>row_latest_coverage_update :=
                  Max (insert (row_latest_coverage_update r)
                         (dates_of (row_id r) (coverage_pairs b)))\<rparr>)
         (signal_table (session db))"
    by (simp add: write_coverage_No_fault)
  finally show ?case
    by (simp add: coverage_pairs_append dates_of_append Max_insert_Max finite_dates_of)
qed

subsection \<open>C3: the watermarks are running maxima\<close>

text \<open>
  C3. No write, whatever statement of it fails, lowers a watermark of a signal. The
  dictionary built from one batch holds, for each signal of the batch, the greatest
  date among the entries of that batch alone. After any sequence of
  \<open>write_status\<close> batches from any store, \<open>latest_status_update\<close> of each signal is
  the greatest of its initial value and the dates of all status rows of the batches
  for that signal, and nothing else of the signal's row has changed; the same holds
  for \<open>write_coverage\<close> and \<open>latest_coverage_update\<close>.
\<close>

theorem watermarks_are_running_maxima:
  "watermarks_advance (signal_table (session db))
     (signal_table (session (snd (write_status f db status_list))))
   \<and> watermarks_advance (signal_table (session db))
       (signal_table (session (snd (write_coverage f db coverage_list))))
   \<and> map_of (latest_dates (status_pairs status_list)) i =
       (if st_date ` {x \<in> set status_list. st_signal_id x = i} = {} then None
        else Some (Max (st_date ` {x \<in> set status_list. st_signal_id x = i})))
   \<and> map_of (latest_dates (coverage_pairs coverage_list)) i =
       (if cov_date ` {x \<in> set coverage_list. cov_signal_id x = i} = {} then None
        else Some (Max (cov_date ` {x \<in> set coverage_list. cov_signal_id x = i})))
   \<and> signal_table (session (fold (\<lambda>b d. snd (write_status No_fault d b)) status_batches db)) =
       map (\<lambda>r. r\<lparr>row_latest_status_update :=
                    Max (insert (row_latest_status_update r)
                           (st_date ` {x \<in> set (concat status_batches).
                                        st_signal_id x = row_id r}))\<rparr>)
           (signal_table (session db))
   \<and> signal_table (session (fold (\<lambda>b d. snd (write_coverage No_fault d b)) coverage_batches db)) =
       map (\<lambda>r. r\<lparr>row_latest_coverage_update :=
                    Max (insert (row_latest_coverage_update r)
                           (cov_date ` {x \<in> set (concat coverage_batches).
                                         cov_signal_id x = row_id r}))\<rparr>)
           (signal_table (session db))"
proof (intro conjI)
  show "watermarks_advance (signal_table (session db))
     (signal_table (session (snd (write_status f db status_list))))"
    by (rule write_status_advances)
  show "watermarks_advance (signal_table (session db))
       (signal_table (session (snd (write_coverage f db coverage_list))))"
    by (rule write_coverage_advances)
  show "map_of (latest_dates (status_pairs status_list)) i =
       (if st_date ` {x \<in> set status_list. st_signal_id x = i} = {} then None
        else Some (Max (st_date ` {x \<in> set status_list. st_signal_id x = i})))"
    using map_of_latest_dates [of "status_pairs status_list" i]
    by (simp only: dates_of_status_pairs)
  show "map_of (latest_dates (coverage_pairs coverage_list)) i =
       (if cov_date ` {x \<in> set coverage_list. cov_signal_id x = i} = {} then None
        else Some (Max (cov_date ` {x \<in> set coverage_list. cov_signal_id x = i})))"
    using map_of_latest_dates [of "coverage_pairs coverage_list" i]
    by (simp only: dates_of_coverage_pairs)
  show "signal_table (session (fold (\<lambda>b d. snd (write_status No_fault d b)) status_batches db)) =
       map (\<lambda>r. r\<lparr>row_latest_status_update :=
                    Max (insert (row_latest_status_update r)
                           (st_date ` {x \<in> set (concat status_batches).
                                        st_signal_id x = row_id r}))\<rparr>)
           (signal_table (session db))"
    using write_status_sequence [of status_batches db]
    by (simp only: dates_of_status_pairs)
  show "signal_table (session (fold (\<lambda>b d. snd (write_coverage No_fault d b)) coverage_batches db)) =
       map (\<lambda>r. r\<lparr>row_latest_coverage_update :=
                    Max (insert (row_latest_coverage_update r)
                           (cov_date ` {x \<in> set (concat coverage_batches).
                                         cov_signal_id x = row_id r}))\<rparr>)
           (signal_table (session db))"
    using write_coverage_sequence [of coverage_batches db]
    by (simp only: dates_of_coverage_pairs)
qed

lemma example_status_dates:
  "st_date ` {x \<in> set (concat [[example_status\<lparr>st_date := (2023, 1, 9)\<rparr>], [example_status]]).
             st_signal_id x = row_id example_signal_row} = {(2023, 1, 9), (2023, 1, 6)}"
  unfolding set_filter [symmetric]
  by (simp add: example_status_def example_signal_row_def)

lemma example_coverage_dates:
  "cov_date ` {x \<in> set (concat [[example_coverage], [example_coverage\<lparr>cov_date := (2019, 5, 5)\<rparr>]]).
              cov_signal_id x = row_id example_signal_row} = {(2023, 1, 4), (2019, 5, 5)}"
  unfolding set_filter [symmetric]
  by (simp add: example_coverage_def example_signal_row_def)

theorem watermarks_are_running_maxima_witness:
  "map row_latest_status_update (signal_table (session example_db)) = [(2020, 1, 1)]
   \<and> map row_latest_status_update
        (signal_table (session
           (fold (\<lambda>b d. snd (write_status No_fault d b))
              [[example_status\<lparr>st_date := (2023, 1, 9)\<rparr>], [example_status]] example_db))) =
       [(2023, 1, 9)]
   \<and> map row_latest_coverage_update
        (signal_table (session
           (fold (\<lambda>b d. snd (write_coverage No_fault d b))
              [[example_coverage], [example_coverage\<lparr>cov_date := (2019, 5, 5)\<rparr>]] example_db))) =
       [(2023, 1, 4)]"
proof -
  note all = watermarks_are_running_maxima
    [of example_db No_fault "[]" "[]" 1
        "[[example_status\<lparr>st_date := (2023, 1, 9)\<rparr>], [example_status]]"
        "[[example_coverage], [example_coverage\<lparr>cov_date := (2019, 5, 5)\<rparr>]]"]
  have tbl: "signal_table (session example_db) = [example_signal_row]"
    by (simp add: example_db_def example_tables_def)
  from all have "signal_table (session
           (fold (\<lambda>b d. snd (write_status No_fault d b))
              [[example_status\<lparr>st_date := (2023, 1, 9)\<rparr>], [example_status]] example_db)) =
     [example_signal_row\<lparr>row_latest_status_update :=
        Max (insert (row_latest_status_update example_signal_row)
               {(2023, 1, 9), (2023, 1, 6)})\<rparr>]"
    by (simp only: example_status_dates tbl list.map)
  then have first: "map row_latest_status_update (signal_table (session
           (fold (\<lambda>b d. snd (write_status No_fault d b))
              [[example_status\<lparr>st_date := (2023, 1, 9)\<rparr>], [example_status]] example_db))) =
       [(2023, 1, 9)]"
    by (simp add: example_signal_row_def)
  from all have "signal_table (session
           (fold (\<lambda>b d. snd (write_coverage No_fault d b))
              [[example_coverage], [example_coverage\<lparr>cov_date := (2019, 5, 5)\<rparr>]] example_db)) =
     [example_signal_row\<lparr>row_latest_coverage_update :=
        Max (insert (row_latest_coverage_update example_signal_row)
               {(2023, 1, 4), (2019, 5, 5)})\<rparr>]"
    by (simp only: example_coverage_dates tbl list.map)
  then have second: "map row_latest_coverage_update (signal_table (session
           (fold (\<lambda>b d. snd (write_coverage No_fault d b))
              [[example_coverage], [example_coverage\<lparr>cov_date := (2019, 5, 5)\<rparr>]] example_db))) =
       [(2023, 1, 4)]"
    by (simp add: example_signal_row_def)
  from first second show ?thesis
    by (simp add: tbl example_signal_row_def)
qed

subsection \<open>C6: writing a status batch twice\<close>

text \<open>
  C6. Writing a status batch a second time changes nothing: the store after two
  successful writes of the batch is the store after one, the status table included.
  The write keeps the keys \<^verbatim>\<open>(signal_id, date)\<close> of the status table distinct, and
  for every entry of the batch the table holds under its key the last entry of the
  batch with that key, issue and time value included.
\<close>

theorem write_status_twice:
  "snd (write_status No_fault (snd (write_status No_fault db status_list)) status_list) =
     snd (write_status No_fault db status_list)
   \<and> fst (write_status No_fault (snd (write_status No_fault db status_list)) status_list) =
       Inr ()
   \<and> (distinct (map status_key (status_table (session db))) \<longrightarrow>
        distinct (map status_key
          (status_table (committed (snd (write_status No_fault db status_list))))))
   \<and> (\<forall>x \<in> set status_list.
        find (\<lambda>r. status_key r = status_key x)
          (status_table (committed (snd (write_status No_fault db status_list)))) =
        find (\<lambda>y. status_key y = status_key x) (rev status_list))"
proof (intro conjI impI ballI)
  show "snd (write_status No_fault (snd (write_status No_fault db status_list)) status_list) =
     snd (write_status No_fault db status_list)"
    by (simp add: write_status_No_fault fold_upsert_status_twice Max_insert_Max
        finite_dates_of)
  show "fst (write_status No_fault (snd (write_status No_fault db status_list)) status_list) =
       Inr ()"
    by (simp add: write_status_No_fault)
next
  assume "distinct (map status_key (status_table (session db)))"
  then show "distinct (map status_key
          (status_table (committed (snd (write_status No_fault db status_list)))))"
    by (simp add: write_status_No_fault distinct_fold_upsert_status)
next
  fix x
  assume "x \<in> set status_list"
  then show "find (\<lambda>r. status_key r = status_key x)
          (status_table (committed (snd (write_status No_fault db status_list)))) =
        find (\<lambda>y. status_key y = status_key x) (rev status_list)"
    by (simp add: write_status_No_fault find_fold_upsert_status_written)
qed

theorem write_status_twice_witness:
  "distinct (map status_key (status_table (session example_db)))
   \<and> example_status \<in> set [example_status, example_status\<lparr>st_latest_issue := NaT\<rparr>]
   \<and> status_table (committed (snd (write_status No_fault example_db
        [example_status, example_status\<lparr>st_latest_issue := NaT\<rparr>]))) =
       [example_status\<lparr>st_latest_issue := NaT\<rparr>]
   \<and> snd (write_status No_fault
        (snd (write_status No_fault example_db
           [example_status, example_status\<lparr>st_latest_issue := NaT\<rparr>]))
        [example_status, example_status\<lparr>st_latest_issue := NaT\<rparr>]) =
       snd (write_status No_fault example_db
         [example_status, example_status\<lparr>st_latest_issue := NaT\<rparr>])
   \<and> find (\<lambda>r. status_key r = status_key example_status)
        (status_table (committed (snd (write_status No_fault example_db
          [example_status, example_status\<lparr>st_latest_issue := NaT\<rparr>])))) =
       Some (example_status\<lparr>st_latest_issue := NaT\<rparr>)"
proof -
  note all = write_status_twice
    [of example_db "[example_status, example_status\<lparr>st_latest_issue := NaT\<rparr>]"]
  have d: "distinct (map status_key (status_table (session example_db)))"
    by (simp add: example_db_def example_tables_def)
  have m: "example_status \<in> set [example_status, example_status\<lparr>st_latest_issue := NaT\<rparr>]"
    by simp
  have tbl: "status_table (committed (snd (write_status No_fault example_db
        [example_status, example_status\<lparr>st_latest_issue := NaT\<rparr>]))) =
       [example_status\<lparr>st_latest_issue := NaT\<rparr>]"
    by (simp add: write_status_No_fault example_db_def example_tables_def status_key_def)
  from all have twice: "snd (write_status No_fault
        (snd (write_status No_fault example_db
           [example_status, example_status\<lparr>st_latest_issue := NaT\<rparr>]))
        [example_status, example_status\<lparr>st_latest_issue := NaT\<rparr>]) =
       snd (write_status No_fault example_db
         [example_status, example_status\<lparr>st_latest_issue := NaT\<rparr>])"
    by (rule conjunct1)
  from all m have "find (\<lambda>r. status_key r = status_key example_status)
        (status_table (committed (snd (write_status No_fault example_db
          [example_status, example_status\<lparr>st_latest_issue := NaT\<rparr>])))) =
       find (\<lambda>y. status_key y = status_key example_status)
         (rev [example_status, example_status\<lparr>st_latest_issue := NaT\<rparr>])"
    by blast
  then have found: "find (\<lambda>r. status_key r = status_key example_status)
        (status_table (committed (snd (write_status No_fault example_db
          [example_status, example_status\<lparr>st_latest_issue := NaT\<rparr>])))) =
       Some (example_status\<lparr>st_latest_issue := NaT\<rparr>)"
    by (simp add: status_key_def)
  from d m tbl twice found show ?thesis
    by (intro conjI)
qed

subsection \<open>C7: the first coverage write wins\<close>

lemma insert_coverage_eq:
  "insert_coverage x T = (if coverage_key x \<in> coverage_key ` set T then T else T @ [x])"
  by (induction T) auto

lemma write_coverage_one:
  "coverage_table (session (snd (write_coverage No_fault db [c]))) =
     insert_coverage c (coverage_table (session db))"
  "coverage_table (committed (snd (write_coverage No_fault db [c]))) =
     insert_coverage c (coverage_table (session db))"
  by (simp_all add: write_coverage_No_fault)

text \<open>
  C7. Let two coverage objects have the same key \<^verbatim>\<open>(signal_id, date, geo_type)\<close> and
  different counts, and let the first be written, then the second. The second write
  raises nothing and leaves the coverage table as the first write left it. When the
  key was not in the table before, the table afterwards is the old table with the
  first object appended, and the second object is not in it. Written in one batch,
  the two objects leave the table that the first alone leaves.
\<close>

theorem first_coverage_write_wins:
  assumes same_key: "coverage_key c1 = coverage_key c2"
    and counts: "cov_count c1 \<noteq> cov_count c2"
    and first: "db1 = snd (write_coverage No_fault db [c1])"
    and second: "db2 = snd (write_coverage No_fault db1 [c2])"
  shows "fst (write_coverage No_fault db1 [c2]) = Inr ()
       \<and> coverage_table (session db2) = coverage_table (session db1)
       \<and> coverage_table (committed db2) = coverage_table (committed db1)
       \<and> (coverage_key c1 \<notin> coverage_key ` set (coverage_table (session db)) \<longrightarrow>
            coverage_table (committed db2) = coverage_table (session db) @ [c1]
            \<and> c2 \<notin> set (coverage_table (committed db2)))
       \<and> coverage_table (committed (snd (write_coverage No_fault db [c1, c2]))) =
           coverage_table (committed db1)"
proof -
  let ?T = "coverage_table (session db)"
  have t1: "coverage_table (session db1) = insert_coverage c1 ?T"
    and t1': "coverage_table (committed db1) = insert_coverage c1 ?T"
    by (simp_all add: first write_coverage_one)
  have present: "coverage_key c2 \<in> coverage_key ` set (insert_coverage c1 ?T)"
    using same_key by (auto simp: insert_coverage_eq)
  then have noop: "insert_coverage c2 (insert_coverage c1 ?T) = insert_coverage c1 ?T"
    by (simp add: insert_coverage_eq)
  have t2: "coverage_table (session db2) = insert_coverage c1 ?T"
    and t2': "coverage_table (committed db2) = insert_coverage c1 ?T"
    by (simp_all add: second write_coverage_one t1 noop)
  have fresh: "coverage_table (committed db2) = ?T @ [c1] \<and> c2 \<notin> set (coverage_table (committed db2))"
    if absent: "coverage_key c1 \<notin> coverage_key ` set ?T"
  proof
    show eq: "coverage_table (committed db2) = ?T @ [c1]"
      using absent by (simp add: t2' insert_coverage_eq)
    have "c2 \<noteq> c1" using counts by auto
    moreover have "c2 \<notin> set ?T" using absent same_key by auto
    ultimately show "c2 \<notin> set (coverage_table (committed db2))"
      by (simp add: eq)
  qed
  have batch: "coverage_table (committed (snd (write_coverage No_fault db [c1, c2]))) =
           coverage_table (committed db1)"
    by (simp add: write_coverage_No_fault t1' noop)
  have silent: "fst (write_coverage No_fault db1 [c2]) = Inr ()"
    by (simp add: write_coverage_No_fault)
  show ?thesis
  proof (intro conjI impI)
    show "fst (write_coverage No_fault db1 [c2]) = Inr ()"
      by (rule silent)
    show "coverage_table (session db2) = coverage_table (session db1)"
      by (simp only: t1 t2)
    show "coverage_table (committed db2) = coverage_table (committed db1)"
      by (simp only: t1' t2')
    show "coverage_table (committed (snd (write_coverage No_fault db [c1, c2]))) =
           coverage_table (committed db1)"
      by (rule batch)
  next
    assume absent: "coverage_key c1 \<notin> coverage_key ` set ?T"
    from fresh [OF absent] show "coverage_table (committed db2) = ?T @ [c1]"
      by (rule conjunct1)
    from fresh [OF absent] show "c2 \<notin> set (coverage_table (committed db2))"
      by (rule conjunct2)
  qed
qed

theorem first_coverage_write_wins_witness:
  "coverage_key example_coverage = coverage_key (example_coverage\<lparr>cov_count := 7\<rparr>)
   \<and> cov_count example_coverage \<noteq> cov_count (example_coverage\<lparr>cov_count := 7\<rparr>)
   \<and> coverage_table (session example_db) = []
   \<and> coverage_table (committed
        (snd (write_coverage No_fault (snd (write_coverage No_fault example_db [example_coverage]))
           [example_coverage\<lparr>cov_count := 7\<rparr>]))) = [example_coverage]
   \<and> cov_count example_coverage = 3"
proof -
  have k: "coverage_key example_coverage = coverage_key (example_coverage\<lparr>cov_count := 7\<rparr>)"
    by (simp add: coverage_key_def)
  have c: "cov_count example_coverage \<noteq> cov_count (example_coverage\<lparr>cov_count := 7\<rparr>)"
    by (simp add: example_coverage_def)
  have empty: "coverage_table (session example_db) = []"
    by (simp add: example_db_def example_tables_def)
  have absent: "coverage_key example_coverage \<notin>
      coverage_key ` set (coverage_table (session example_db))"
    by (simp add: empty)
  from first_coverage_write_wins [OF k c refl refl, of example_db]
  have "coverage_key example_coverage \<notin>
          coverage_key ` set (coverage_table (session example_db)) \<longrightarrow>
        coverage_table (committed
          (snd (write_coverage No_fault (snd (write_coverage No_fault example_db [example_coverage]))
             [example_coverage\<lparr>cov_count := 7\<rparr>]))) =
          coverage_table (session example_db) @ [example_coverage]
        \<and> example_coverage\<lparr>cov_count := 7\<rparr> \<notin> set (coverage_table (committed
          (snd (write_coverage No_fault (snd (write_coverage No_fault example_db [example_coverage]))
             [example_coverage\<lparr>cov_count := 7\<rparr>]))))"
    by blast
  with absent have "coverage_table (committed
        (snd (write_coverage No_fault (snd (write_coverage No_fault example_db [example_coverage]))
           [example_coverage\<lparr>cov_count := 7\<rparr>]))) =
          coverage_table (session example_db) @ [example_coverage]"
    by blast
  then have "coverage_table (committed
        (snd (write_coverage No_fault (snd (write_coverage No_fault example_db [example_coverage]))
           [example_coverage\<lparr>cov_count := 7\<rparr>]))) = [example_coverage]"
    by (simp only: empty append_Nil)
  with k c empty show ?thesis
    by (simp add: example_coverage_def)
qed

section \<open>Properties of the orchestrator\<close>

lemma generate_append:
  "generate w metadata (xs @ ys) acc =
     (case generate w metadata xs acc of
        Inl e \<Rightarrow> Inl e
      | Inr acc' \<Rightarrow> generate w metadata ys acc')"
proof (induction xs arbitrary: acc)
  case Nil
  then show ?case by (cases acc) simp
next
  case (Cons x xs)
  then show ?case
    by (cases acc) (simp split: sum.split prod.split)
qed

lemma generate_all_computed:
  "\<forall>s \<in> set xs. \<not> isl (compute_signal w metadata s) \<Longrightarrow>
     \<exists>acc'. generate w metadata xs acc = Inr acc'"
proof (induction xs arbitrary: acc)
  case Nil
  then show ?case by (cases acc) simp
next
  case (Cons x xs)
  from Cons.prems obtain r where r: "compute_signal w metadata x = Inr r"
    by (cases "compute_signal w metadata x") auto
  obtain st cov where "r = (st, cov)" by (cases r)
  with r Cons show ?case
    by (cases acc) simp
qed

lemma generate_stops_at_failure:
  assumes "\<forall>s \<in> set before. \<not> isl (compute_signal w metadata s)"
    and "compute_signal w metadata failing = Inl e"
  shows "generate w metadata (before @ failing # after) acc = Inl e"
proof -
  from generate_all_computed [OF assms(1)]
  obtain acc' where "generate w metadata before acc = Inr acc'" by blast
  then show ?thesis
    using assms(2) by (cases acc') (simp add: generate_append)
qed

lemma main_aborted:
  assumes "generate w (covidcast_metadata w) (get_enabled_signals db) ([], []) = Inl e"
  shows "main w db =
           \<lparr>returned = Inl e, store = db,
            logged = [Starting (map name (get_enabled_signals db))]\<rparr>"
  using assms by (simp add: main_def Let_def)

lemma main_computed:
  assumes "generate w (covidcast_metadata w) (get_enabled_signals db) ([], []) =
             Inr (status_list, coverage_list)"
  shows "main w db =
           \<lparr>returned = Inr True,
            store = snd (write_coverage (coverage_fault w)
                          (snd (write_status (status_fault w) db status_list)) coverage_list),
            logged =
              [Starting (map name (get_enabled_signals db)),
               log_of_write Wrote_status (fst (write_status (status_fault w) db status_list)),
               log_of_write Wrote_coverage
                 (fst (write_coverage (coverage_fault w)
                         (snd (write_status (status_fault w) db status_list)) coverage_list)),
               Generated]\<rparr>"
  using assms by (simp add: main_def Let_def case_prod_beta)

lemma example_compute_signal:
  "compute_signal (example_world f1 f2) example_metadata example_signal =
     Inr (example_status, [example_coverage])"
proof -
  have "get_coverage county_endpoint example_signal example_metadata = Inr [example_coverage]"
  proof -
    have "groupby_size county_rows =
            [((''county'', source example_signal, (2023, 1, 4), signal example_meta_row),
              length county_rows)]"
      using county_rows_group county_rows_asked
      by (intro groupby_size_one_group) (simp_all add: county_rows_def group_key_def)
    with get_coverage_unfold
           [OF example_rows example_latest_time_value, of county_endpoint,
            unfolded county_endpoint_answer]
    have "get_coverage county_endpoint example_signal example_metadata =
        Inr [\<lparr>cov_signal_id = db_id example_signal, cov_date = (2023, 1, 4),
              cov_geo_type = ''county'', cov_count = int (length county_rows)\<rparr>]"
      by simp
    then show ?thesis
      by (simp add: example_coverage_def example_signal_def county_rows_def)
  qed
  moreover have "to_datetime_rest (example_world f1 f2) = reject_rest"
    and "covidcast_signal (example_world f1 f2) = county_endpoint"
    and "today (example_world f1 f2) = (2023, 1, 6)"
    by (simp_all add: example_world_def)
  ultimately have "compute_signal (example_world f1 f2) example_metadata example_signal =
     Inr (\<lparr>st_signal_id = db_id example_signal, st_date = (2023, 1, 6),
           st_latest_issue = Date (2023, 1, 5), st_latest_time_value = Date (2023, 1, 4)\<rparr>,
          [example_coverage])"
    by (simp add: compute_signal_def example_latest_issue example_latest_time_value)
  then show ?thesis
    by (simp add: example_status_def example_signal_def)
qed

lemma stray_compute_signal:
  "compute_signal (example_world f1 f2) example_metadata stray_signal = Inl IndexError"
  by (simp add: compute_signal_def example_world_def get_latest_issue_from_metadata_def
      get_latest_time_value_from_metadata_def get_coverage_def series_max_def
      to_datetime_date_def example_metadata_def example_meta_row_def stray_signal_def)

subsection \<open>C9: a computation error halts the run before the writes\<close>

text \<open>
  C9. Let the computation of an enabled signal raise \<open>e\<close>, the signals before it in the
  order of iteration having been computed. Then \<open>e\<close> leaves \<open>main\<close>: the store is
  untouched, so no status and no coverage has been written, the log holds the start
  message only, and the process exits with code 1. The signals after the failing one
  are not processed: the loop gives what it gives when the failing signal is the last.
\<close>

theorem computation_error_halts_run:
  assumes enabled: "get_enabled_signals db = before @ failing # after"
    and computed: "\<forall>s \<in> set before. \<not> isl (compute_signal w (covidcast_metadata w) s)"
    and fails: "compute_signal w (covidcast_metadata w) failing = Inl e"
  shows "main w db =
           \<lparr>returned = Inl e, store = db,
            logged = [Starting (map name (before @ failing # after))]\<rparr>
       \<and> exit_code (main w db) = 1
       \<and> generate w (covidcast_metadata w) (before @ failing # after) ([], []) =
           generate w (covidcast_metadata w) (before @ [failing]) ([], [])"
proof -
  have stop: "generate w (covidcast_metadata w) (before @ failing # rest) ([], []) = Inl e"
    for rest
    using computed fails by (rule generate_stops_at_failure)
  then have "generate w (covidcast_metadata w) (get_enabled_signals db) ([], []) = Inl e"
    by (simp add: enabled)
  from main_aborted [OF this]
  have run: "main w db =
           \<lparr>returned = Inl e, store = db,
            logged = [Starting (map name (before @ failing # after))]\<rparr>"
    by (simp add: enabled)
  then have "exit_code (main w db) = 1"
    by (simp add: exit_code_def)
  with run stop [of after] stop [of "[]"] show ?thesis
    by simp
qed

lemma two_signal_db_enabled:
  "get_enabled_signals two_signal_db =
     [example_signal] @ stray_signal # [example_signal\<lparr>db_id := 3\<rparr>]"
  by (simp add: get_enabled_signals_def two_signal_db_def two_signal_tables_def
      example_signal_row_def stray_signal_row_def example_signal_def stray_signal_def)

theorem computation_error_halts_run_witness:
  "get_enabled_signals two_signal_db =
     [example_signal] @ stray_signal # [example_signal\<lparr>db_id := 3\<rparr>]
   \<and> compute_signal (example_world No_fault No_fault) example_metadata example_signal =
       Inr (example_status, [example_coverage])
   \<and> compute_signal (example_world No_fault No_fault) example_metadata stray_signal =
       Inl IndexError
   \<and> returned (main (example_world No_fault No_fault) two_signal_db) = Inl IndexError
   \<and> store (main (example_world No_fault No_fault) two_signal_db) = two_signal_db
   \<and> status_table (session two_signal_db) = []
   \<and> coverage_table (session two_signal_db) = []
   \<and> exit_code (main (example_world No_fault No_fault) two_signal_db) = 1"
proof -
  let ?w = "example_world No_fault No_fault"
  have md: "covidcast_metadata ?w = example_metadata"
    by (simp add: example_world_def)
  have computed: "\<forall>s \<in> set [example_signal]. \<not> isl (compute_signal ?w (covidcast_metadata ?w) s)"
    by (simp add: md example_compute_signal)
  have fails: "compute_signal ?w (covidcast_metadata ?w) stray_signal = Inl IndexError"
    by (simp add: md stray_compute_signal)
  note all = computation_error_halts_run [OF two_signal_db_enabled computed fails]
  from all have run: "main ?w two_signal_db =
           \<lparr>returned = Inl IndexError, store = two_signal_db,
            logged = [Starting (map name
              ([example_signal] @ stray_signal # [example_signal\<lparr>db_id := 3\<rparr>]))]\<rparr>"
    by (rule conjunct1)
  from all have code: "exit_code (main ?w two_signal_db) = 1"
    by blast
  have empty: "status_table (session two_signal_db) = []"
    "coverage_table (session two_signal_db) = []"
    by (simp_all add: two_signal_db_def two_signal_tables_def)
  from run code empty show ?thesis
    by (simp add: two_signal_db_enabled example_compute_signal stray_compute_signal)
qed

subsection \<open>C8: store errors are logged, and the run reports success\<close>

lemma write_status_keeps_coverage:
  "coverage_table (session (snd (write_status f db status_list))) =
     coverage_table (session db)"
  by (simp add: write_status_def Let_def)

lemma write_coverage_failed_keeps_committed:
  "fst (write_coverage f db coverage_list) = Inl e \<Longrightarrow>
     committed (snd (write_coverage f db coverage_list)) = committed db"
  by (auto simp: write_coverage_def Let_def split: if_splits)

lemma example_db_enabled: "get_enabled_signals example_db = [example_signal]"
  by (simp add: get_enabled_signals_def example_db_def example_tables_def
      example_signal_row_def example_signal_def)

lemma example_generate:
  "generate (example_world f1 f2) (covidcast_metadata (example_world f1 f2))
     (get_enabled_signals example_db) ([], []) =
     Inr ([example_status], [example_coverage])"
proof -
  have "covidcast_metadata (example_world f1 f2) = example_metadata"
    by (simp add: example_world_def)
  then show ?thesis
    by (simp add: example_db_enabled example_compute_signal)
qed

text \<open>
  C8. Let the loop over the enabled signals end with the two batches. Then \<open>main\<close>
  returns \<^verbatim>\<open>True\<close> and the process exits with code 0, whatever the faults of the two
  writes are. The store at the end is the one the coverage write leaves when it runs
  on what the status write left, so the coverage write is executed whether or not the
  status write raised. An exception of the status write is logged, and when the
  coverage write has no fault its success is logged and the coverage rows are
  committed. An exception of the coverage write is logged, and when the status write
  had no fault its success is logged and the status rows stay committed.
\<close>

theorem store_errors_are_logged:
  assumes computed:
    "generate w (covidcast_metadata w) (get_enabled_signals db) ([], []) =
       Inr (status_list, coverage_list)"
    and after_status: "db1 = snd (write_status (status_fault w) db status_list)"
  shows "returned (main w db) = Inr True
       \<and> exit_code (main w db) = 0
       \<and> store (main w db) = snd (write_coverage (coverage_fault w) db1 coverage_list)
       \<and> (\<forall>e. fst (write_status (status_fault w) db status_list) = Inl e \<longrightarrow>
             logged (main w db) ! 1 = Logged_exception e
             \<and> (coverage_fault w = No_fault \<longrightarrow>
                  logged (main w db) ! 2 = Wrote_coverage
                  \<and> coverage_table (committed (store (main w db))) =
                      fold insert_coverage coverage_list (coverage_table (session db))))
       \<and> (\<forall>e. fst (write_coverage (coverage_fault w) db1 coverage_list) = Inl e \<longrightarrow>
             logged (main w db) ! 2 = Logged_exception e
             \<and> (status_fault w = No_fault \<longrightarrow>
                  logged (main w db) ! 1 = Wrote_status
                  \<and> status_table (committed (store (main w db))) =
                      fold upsert_status status_list (status_table (session db))))"
proof -
  note run = main_computed [OF computed, folded after_status]
  have kept: "coverage_table (session db1) = coverage_table (session db)"
    by (simp add: after_status write_status_keeps_coverage)
  show ?thesis
  proof (intro conjI allI impI)
    show "returned (main w db) = Inr True"
      by (simp add: run)
    show "exit_code (main w db) = 0"
      by (simp add: run exit_code_def)
    show "store (main w db) = snd (write_coverage (coverage_fault w) db1 coverage_list)"
      by (simp add: run)
  next
    fix e
    assume "fst (write_status (status_fault w) db status_list) = Inl e"
    then show "logged (main w db) ! 1 = Logged_exception e"
      by (simp add: run log_of_write_def)
  next
    assume "coverage_fault w = No_fault"
    then show "logged (main w db) ! 2 = Wrote_coverage"
      by (simp add: run log_of_write_def write_coverage_No_fault)
  next
    assume "coverage_fault w = No_fault"
    then show "coverage_table (committed (store (main w db))) =
                 fold insert_coverage coverage_list (coverage_table (session db))"
      by (simp add: run write_coverage_No_fault kept)
  next
    fix e
    assume "fst (write_coverage (coverage_fault w) db1 coverage_list) = Inl e"
    then show "logged (main w db) ! 2 = Logged_exception e"
      by (simp add: run log_of_write_def)
  next
    assume "status_fault w = No_fault"
    then show "logged (main w db) ! 1 = Wrote_status"
      by (simp add: run log_of_write_def write_status_No_fault)
  next
    fix e
    assume failed: "fst (write_coverage (coverage_fault w) db1 coverage_list) = Inl e"
      and ok: "status_fault w = No_fault"
    have "committed (store (main w db)) = committed db1"
      using write_coverage_failed_keeps_committed [OF failed] by (simp add: run)
    then show "status_table (committed (store (main w db))) =
                 fold upsert_status status_list (status_table (session db))"
      by (simp add: after_status ok write_status_No_fault)
  qed
qed

theorem store_errors_are_logged_witness:
  "fst (write_status Insert_fails example_db [example_status]) = Inl Connector_Error
   \<and> returned (main (example_world Insert_fails No_fault) example_db) = Inr True
   \<and> exit_code (main (example_world Insert_fails No_fault) example_db) = 0
   \<and> logged (main (example_world Insert_fails No_fault) example_db) ! 1 =
       Logged_exception Connector_Error
   \<and> logged (main (example_world Insert_fails No_fault) example_db) ! 2 = Wrote_coverage
   \<and> coverage_table (committed (store (main (example_world Insert_fails No_fault) example_db))) =
       [example_coverage]
   \<and> fst (write_coverage Commit_fails
            (snd (write_status No_fault example_db [example_status])) [example_coverage]) =
       Inl Connector_Error
   \<and> exit_code (main (example_world No_fault Commit_fails) example_db) = 0
   \<and> logged (main (example_world No_fault Commit_fails) example_db) ! 1 = Wrote_status
   \<and> logged (main (example_world No_fault Commit_fails) example_db) ! 2 =
       Logged_exception Connector_Error
   \<and> status_table (committed (store (main (example_world No_fault Commit_fails) example_db))) =
       [example_status]"
proof -
  let ?wa = "example_world Insert_fails No_fault"
  let ?wb = "example_world No_fault Commit_fails"
  have fa: "status_fault ?wa = Insert_fails" "coverage_fault ?wa = No_fault"
    and fb: "status_fault ?wb = No_fault" "coverage_fault ?wb = Commit_fails"
    by (simp_all add: example_world_def)
  have empty: "status_table (session example_db) = []"
    "coverage_table (session example_db) = []"
    by (simp_all add: example_db_def example_tables_def)
  have raised_a: "fst (write_status Insert_fails example_db [example_status]) =
      Inl Connector_Error"
    by (simp add: write_status_def insert_raises_def)
  have raised_b: "fst (write_coverage Commit_fails
            (snd (write_status No_fault example_db [example_status])) [example_coverage]) =
       Inl Connector_Error"
    by (simp add: write_coverage_def insert_raises_def Let_def)
  note a = store_errors_are_logged [OF example_generate refl, of Insert_fails No_fault]
  note b = store_errors_are_logged [OF example_generate refl, of No_fault Commit_fails]
  from a have a1: "returned (main ?wa example_db) = Inr True"
    and a2: "exit_code (main ?wa example_db) = 0"
    by blast+
  have ra: "fst (write_status (status_fault ?wa) example_db [example_status]) =
      Inl Connector_Error"
    by (simp only: fa raised_a)
  note a_logged =
    a [THEN conjunct2, THEN conjunct2, THEN conjunct2, THEN conjunct1, rule_format, OF ra]
  from a_logged have a3: "logged (main ?wa example_db) ! 1 = Logged_exception Connector_Error"
    by (rule conjunct1)
  from a_logged fa(2) have a4: "logged (main ?wa example_db) ! 2 = Wrote_coverage"
    and a5: "coverage_table (committed (store (main ?wa example_db))) =
               fold insert_coverage [example_coverage] (coverage_table (session example_db))"
    by blast+
  from b have b2: "exit_code (main ?wb example_db) = 0"
    by blast
  have rb: "fst (write_coverage (coverage_fault ?wb)
              (snd (write_status (status_fault ?wb) example_db [example_status]))
              [example_coverage]) = Inl Connector_Error"
    by (simp only: fb raised_b)
  note b_logged =
    b [THEN conjunct2, THEN conjunct2, THEN conjunct2, THEN conjunct2, rule_format, OF rb]
  from b_logged have b4: "logged (main ?wb example_db) ! 2 = Logged_exception Connector_Error"
    by (rule conjunct1)
  from b_logged fb(1) have b3: "logged (main ?wb example_db) ! 1 = Wrote_status"
    and b5: "status_table (committed (store (main ?wb example_db))) =
               fold upsert_status [example_status] (status_table (session example_db))"
    by blast+
  from a5 b5 have a5': "coverage_table (committed (store (main ?wa example_db))) =
      [example_coverage]"
    and b5': "status_table (committed (store (main ?wb example_db))) = [example_status]"
    by (simp_all add: empty)
  from raised_a a1 a2 a3 a4 a5' raised_b b2 b3 b4 b5' show ?thesis
    by (intro conjI)
qed

end
